theory Spec2Isabelle
  imports Main
begin

section \<open>Project Icarus: the orchestrator of the design specification\<close>

text \<open>
  The program is the Python of \<^verbatim>\<open>docs/SPECIFICATION.md\<close>: the class
  \<^verbatim>\<open>GameOrchestrator\<close> (game loop, turns, sandboxed execution, scoring) and the
  command validation of the section on command safety, together with the database
  schema and the table of game phases of the same document. Python strings are
  modelled as \<^typ>\<open>string\<close>, Python integers as \<^typ>\<open>int\<close>, a function that can
  raise as a function into a sum type whose left summand is the exception, and the
  mutation of the orchestrator, of the database and of the workloads as a state that
  every function takes and returns.
\<close>

subsection \<open>Command safety\<close>

text \<open>
  \<^verbatim>\<open>
  BLOCKED_COMMANDS = [
      'rm -rf /',  # Destructive commands
      'dd',        # Disk operations
      ':(){ :|:& };:',  # Fork bombs
  ]

  def validate_command(command: str) -> bool:
      # Check against blocklist
      for blocked in BLOCKED_COMMANDS:
          if blocked in command:
              return False
      return True
  \<close>
  Python's \<^verbatim>\<open>blocked in command\<close> on two strings searches \<^verbatim>\<open>command\<close> for
  \<^verbatim>\<open>blocked\<close> as a contiguous run of characters. \<open>str_in\<close> is that search: at every
  position of the haystack, does the needle start there.
\<close>

definition BLOCKED_COMMANDS :: "string list" where
  "BLOCKED_COMMANDS = [''rm -rf /'', ''dd'', '':(){ :|:& };:'']"

fun startswith :: "string \<Rightarrow> string \<Rightarrow> bool" where
  "startswith s [] = True"
| "startswith [] (p # ps) = False"
| "startswith (c # cs) (p # ps) = (c = p \<and> startswith cs ps)"

fun str_in :: "string \<Rightarrow> string \<Rightarrow> bool" where
  "str_in needle [] = (needle = [])"
| "str_in needle (c # cs) = (startswith (c # cs) needle \<or> str_in needle cs)"

fun validate_command_loop :: "string list \<Rightarrow> string \<Rightarrow> bool" where
  "validate_command_loop [] command = True"
| "validate_command_loop (blocked # rest) command =
     (if str_in blocked command then False else validate_command_loop rest command)"

definition validate_command :: "string \<Rightarrow> bool" where
  "validate_command command = validate_command_loop BLOCKED_COMMANDS command"

subsection \<open>Exceptions and command results\<close>

text \<open>
  A Python exception that derives from \<^verbatim>\<open>Exception\<close>, with its message. The
  failures \<^verbatim>\<open>execute_in_container\<close> can meet are of this kind:
  \<^verbatim>\<open>docker.errors.NotFound\<close> from \<^verbatim>\<open>containers.get\<close>, an API or transport
  error or a timeout from \<^verbatim>\<open>exec_run\<close>, a \<^verbatim>\<open>UnicodeDecodeError\<close> from
  \<^verbatim>\<open>decode\<close>. \<open>str\<close> is Python's \<^verbatim>\<open>str(e)\<close>.
\<close>

datatype exn =
    NotFound string
  | APIError string
  | Timeout string
  | UnicodeDecodeError string
  | OtherException string

fun str :: "exn \<Rightarrow> string" where
  "str (NotFound m) = m"
| "str (APIError m) = m"
| "str (Timeout m) = m"
| "str (UnicodeDecodeError m) = m"
| "str (OtherException m) = m"

text \<open>The dict \<^verbatim>\<open>{'exit_code': .., 'stdout': .., 'stderr': ..}\<close>.\<close>

record command_result =
  exit_code :: int
  stdout :: string
  stderr :: string

type_synonym bytes = "char list"

subsection \<open>Turn results, decisions and the database rows\<close>

text \<open>
  The dict a turn returns. The red turn's dict has a \<^verbatim>\<open>'phase'\<close> key
  (\<^verbatim>\<open>decision.get('phase', 'unknown')\<close>), the blue turn's has none.
\<close>

record turn =
  observation :: string
  reasoning :: string
  action :: string
  result :: string
  success :: bool
  execution_time_ms :: int
  phase :: "string option"

text \<open>
  What \<^verbatim>\<open>decide_action\<close> and \<^verbatim>\<open>decide_defense\<close> return (the keys the
  orchestrator reads; \<^verbatim>\<open>'phase'\<close> may be missing).
\<close>

record decision =
  d_reasoning :: string
  d_command :: string
  d_phase :: "string option"

record defense =
  threat_assessment :: string
  df_reasoning :: string
  defensive_action :: string

text \<open>
  The rows of the schema's tables \<^verbatim>\<open>rounds\<close>, \<^verbatim>\<open>events\<close>,
  \<^verbatim>\<open>command_log\<close> and \<^verbatim>\<open>telemetry\<close>, with the columns the orchestrator
  supplies. \<^verbatim>\<open>red_points_earned\<close> and \<^verbatim>\<open>blue_points_earned\<close> are the two
  \<^verbatim>\<open>INT DEFAULT 0\<close> columns of \<^verbatim>\<open>rounds\<close>.
\<close>

record round_row =
  round_id :: nat
  round_num :: int
  red_data :: turn
  blue_data :: turn
  red_points_earned :: int
  blue_points_earned :: int

record event_row =
  ev_round_id :: nat
  event_type :: string
  team :: string
  description :: string
  points :: int

record command_row =
  cl_round_id :: int
  cl_team :: string
  cl_container :: string
  cl_command :: string
  cl_result :: command_result
  cl_execution_time_ms :: int

record telemetry_row =
  tl_round_id :: int
  tl_telemetry :: string

subsection \<open>The orchestrator's state\<close>

text \<open>
  The mutable state one game touches: \<^verbatim>\<open>self.round_number\<close>; the game's row of
  the table \<^verbatim>\<open>games\<close> (\<^verbatim>\<open>red_score\<close>, \<^verbatim>\<open>blue_score\<close>, \<^verbatim>\<open>status\<close>); the
  game's rows of the other tables, oldest first; and \<open>exec_calls\<close>, the calls of
  \<^verbatim>\<open>exec_run\<close> made so far (container and argument vector): all that the orchestrator
  asks of the workloads, whether the call then returns or raises.
\<close>

record orchestrator =
  round_number :: int
  red_score :: int
  blue_score :: int
  status :: string
  rounds :: "round_row list"
  events :: "event_row list"
  command_log :: "command_row list"
  telemetry :: "telemetry_row list"
  exec_calls :: "(string \<times> string list) list"

text \<open>
  \<^verbatim>\<open>__init__\<close> sets \<^verbatim>\<open>self.round_number = 0\<close>; \<^verbatim>\<open>db.create_game\<close> inserts the
  game's row, whose columns take the schema's defaults (\<^verbatim>\<open>red_score INT DEFAULT 0\<close>,
  \<^verbatim>\<open>blue_score INT DEFAULT 0\<close>, \<^verbatim>\<open>status ... DEFAULT 'running'\<close>); no other row
  of the game exists yet.
\<close>

definition initial :: orchestrator where
  "initial = \<lparr>round_number = 0, red_score = 0, blue_score = 0, status = ''running'',
     rounds = [], events = [], command_log = [], telemetry = [], exec_calls = []\<rparr>"

subsection \<open>The collaborators\<close>

text \<open>
  What the orchestrator calls and \<^verbatim>\<open>docs/SPECIFICATION.md\<close> does not define is a
  parameter: the Docker client (\<open>containers_get\<close>, \<open>exec_run\<close>, which return or raise),
  \<^verbatim>\<open>bytes.decode\<close>, the two agents (\<open>red_observe\<close> and \<open>blue_monitor\<close> are the
  observation and the telemetry after \<^verbatim>\<open>json.dumps\<close>), the wall clock
  (\<open>elapsed_ms\<close> is \<^verbatim>\<open>int((time.time() - start_time) * 1000)\<close>), the six detectors
  and \<^verbatim>\<open>check_game_over\<close>. Each may depend on everything that happened before,
  which the state holds.
\<close>

record env =
  containers_get :: "orchestrator \<Rightarrow> string \<Rightarrow> exn + string"
  exec_run :: "orchestrator \<Rightarrow> string \<Rightarrow> string list \<Rightarrow> int
                 \<Rightarrow> exn + (int \<times> bytes option \<times> bytes option)"
  decode :: "bytes \<Rightarrow> exn + string"
  red_observe :: "orchestrator \<Rightarrow> string"
  red_decide :: "orchestrator \<Rightarrow> decision"
  blue_monitor :: "orchestrator \<Rightarrow> string"
  blue_decide :: "orchestrator \<Rightarrow> defense"
  elapsed_ms :: "orchestrator \<Rightarrow> int"
  detect_port_scan :: "turn \<Rightarrow> bool"
  detect_service_identification :: "turn \<Rightarrow> bool"
  detect_shell_access :: "turn \<Rightarrow> bool"
  detect_attack_blocked :: "turn \<Rightarrow> bool"
  detect_ip_blocked :: "turn \<Rightarrow> bool"
  detect_service_down :: "turn \<Rightarrow> bool"
  check_game_over :: "orchestrator \<Rightarrow> bool"

subsection \<open>The sandbox executor\<close>

text \<open>
  \<^verbatim>\<open>
  def execute_in_container(self, container: str, command: str) -> dict:
      try:
          container_obj = self.docker_client.containers.get(container)
          # Execute with timeout
          exit_code, output = container_obj.exec_run(
              cmd=['bash', '-c', command], demux=True, timeout=30)
          stdout = output[0].decode() if output[0] else ""
          stderr = output[1].decode() if output[1] else ""
          return {'exit_code': exit_code, 'stdout': stdout, 'stderr': stderr}
      except Exception as e:
          return {'exit_code': -1, 'stdout': '', 'stderr': str(e)}
  \<close>
  \<open>decode_stream\<close> is the conditional expression \<^verbatim>\<open>o.decode() if o else ""\<close>:
  \<^verbatim>\<open>None\<close> and the empty bytes are falsy. \<open>execute_in_container_try\<close> is the body
  of the \<^verbatim>\<open>try\<close>, which returns or raises; \<open>execute_in_container\<close> adds the handler.
  A function that can raise returns \<open>Inl\<close> of the exception.
\<close>

definition decode_stream :: "env \<Rightarrow> bytes option \<Rightarrow> exn + string" where
  "decode_stream E out =
     (case out of
        None \<Rightarrow> Inr ''''
      | Some b \<Rightarrow> if b = [] then Inr '''' else decode E b)"

definition execute_in_container_try ::
  "env \<Rightarrow> orchestrator \<Rightarrow> string \<Rightarrow> string \<Rightarrow> (exn + command_result) \<times> orchestrator" where
  "execute_in_container_try E s container command =
     (case containers_get E s container of
        Inl e \<Rightarrow> (Inl e, s)
      | Inr container_obj \<Rightarrow>
          (let cmd = [''bash'', ''-c'', command];
               s' = s\<lparr>exec_calls := exec_calls s @ [(container_obj, cmd)]\<rparr>
           in case exec_run E s container_obj cmd 30 of
                Inl e \<Rightarrow> (Inl e, s')
              | Inr (code, output0, output1) \<Rightarrow>
                  (case decode_stream E output0 of
                     Inl e \<Rightarrow> (Inl e, s')
                   | Inr out \<Rightarrow>
                       (case decode_stream E output1 of
                          Inl e \<Rightarrow> (Inl e, s')
                        | Inr err \<Rightarrow>
                            (Inr \<lparr>exit_code = code, stdout = out, stderr = err\<rparr>, s')))))"

definition execute_in_container ::
  "env \<Rightarrow> orchestrator \<Rightarrow> string \<Rightarrow> string \<Rightarrow> (exn + command_result) \<times> orchestrator" where
  "execute_in_container E s container command =
     (case execute_in_container_try E s container command of
        (Inr r, s') \<Rightarrow> (Inr r, s')
      | (Inl e, s') \<Rightarrow> (Inr \<lparr>exit_code = - 1, stdout = '''', stderr = str e\<rparr>, s'))"

subsection \<open>The database calls\<close>

text \<open>
  The class \<^verbatim>\<open>GameDatabase\<close> is called by the orchestrator and defined nowhere in
  the sources; the schema of its tables is. Each of its five methods below is taken to
  do what its name, its arguments and the schema say, which is the History Sink of the
  spec (\<^verbatim>\<open>append_round(round) -> RoundId\<close>, \<^verbatim>\<open>append_event(event)\<close>,
  \<^verbatim>\<open>update_scores(game_id, deltas)\<close>).
\<close>

text \<open>
  Modelled from the spec: \<^verbatim>\<open>db.log_round\<close> is missing. It inserts one row of
  \<^verbatim>\<open>rounds\<close> built from its arguments (round number, the two turn dicts) and returns
  the row's identifier. The turn dicts have no points key, so the two points-earned
  columns take the schema's default 0. The identifier (a fresh UUID in the schema) is
  the number of rounds stored before.
\<close>

definition log_round :: "int \<Rightarrow> turn \<Rightarrow> turn \<Rightarrow> orchestrator \<Rightarrow> nat \<times> orchestrator" where
  "log_round num red blue s =
     (let rid = length (rounds s)
      in (rid, s\<lparr>rounds := rounds s @
            [\<lparr>round_id = rid, round_num = num, red_data = red, blue_data = blue,
              red_points_earned = 0, blue_points_earned = 0\<rparr>]\<rparr>))"

text \<open>
  Modelled from the spec: \<^verbatim>\<open>db.log_command\<close> is missing. It inserts one row of
  \<^verbatim>\<open>command_log\<close> built from its arguments.
\<close>

definition log_command ::
  "int \<Rightarrow> string \<Rightarrow> string \<Rightarrow> string \<Rightarrow> command_result \<Rightarrow> int \<Rightarrow> orchestrator \<Rightarrow> orchestrator" where
  "log_command rid tm container command res ms s =
     s\<lparr>command_log := command_log s @
        [\<lparr>cl_round_id = rid, cl_team = tm, cl_container = container, cl_command = command,
          cl_result = res, cl_execution_time_ms = ms\<rparr>]\<rparr>"

text \<open>
  Modelled from the spec: \<^verbatim>\<open>db.log_telemetry\<close> is missing. It inserts one row of
  \<^verbatim>\<open>telemetry\<close> built from its arguments.
\<close>

definition log_telemetry :: "int \<Rightarrow> string \<Rightarrow> orchestrator \<Rightarrow> orchestrator" where
  "log_telemetry rid tel s =
     s\<lparr>telemetry := telemetry s @ [\<lparr>tl_round_id = rid, tl_telemetry = tel\<rparr>]\<rparr>"

text \<open>
  Modelled from the spec: \<^verbatim>\<open>db.update_score\<close> is missing. It adds the points (a
  signed delta) to the score column of the team in the game's row: \<^verbatim>\<open>red_score\<close> for
  \<^verbatim>\<open>'red'\<close>, \<^verbatim>\<open>blue_score\<close> for \<^verbatim>\<open>'blue'\<close>; the game has no column for another
  team.
\<close>

definition update_score :: "string \<Rightarrow> int \<Rightarrow> orchestrator \<Rightarrow> orchestrator" where
  "update_score tm pts s =
     (if tm = ''red'' then s\<lparr>red_score := red_score s + pts\<rparr>
      else if tm = ''blue'' then s\<lparr>blue_score := blue_score s + pts\<rparr>
      else s)"

text \<open>
  Modelled from the spec: \<^verbatim>\<open>db.record_event\<close> is missing. It inserts one row of
  \<^verbatim>\<open>events\<close> built from its arguments; events are append-only.
\<close>

definition record_event ::
  "nat \<Rightarrow> string \<Rightarrow> string \<Rightarrow> string \<Rightarrow> int \<Rightarrow> orchestrator \<Rightarrow> orchestrator" where
  "record_event rid ty tm descr pts s =
     s\<lparr>events := events s @
        [\<lparr>ev_round_id = rid, event_type = ty, team = tm, description = descr, points = pts\<rparr>]\<rparr>"

subsection \<open>The two turns\<close>

text \<open>
  \<^verbatim>\<open>
  def execute_red_team_turn(self) -> dict:
      observation = self.red_agent.observe_environment()
      history = self.db.get_recent_context(game_id=.., team='red', limit=10)
      decision = self.red_agent.decide_action(observation, history)
      start_time = time.time()
      result = self.execute_in_container(container='red-kali', command=decision['command'])
      execution_time = int((time.time() - start_time) * 1000)
      self.db.log_command(round_id=self.round_number, team='red', container='red-kali',
          command=decision['command'], result=result, execution_time_ms=execution_time)
      return {'observation': json.dumps(observation), 'reasoning': decision['reasoning'],
          'action': decision['command'], 'result': result['stdout'] + result['stderr'],
          'success': result['exit_code'] == 0, 'execution_time_ms': execution_time,
          'phase': decision.get('phase', 'unknown')}
  \<close>
\<close>

definition execute_red_team_turn :: "env \<Rightarrow> orchestrator \<Rightarrow> (exn + turn) \<times> orchestrator" where
  "execute_red_team_turn E s =
     (let obs = red_observe E s;
          dec = red_decide E s
      in case execute_in_container E s ''red-kali'' (d_command dec) of
           (Inl e, s1) \<Rightarrow> (Inl e, s1)
         | (Inr res, s1) \<Rightarrow>
             (let execution_time = elapsed_ms E s1;
                  s2 = log_command (round_number s1) ''red'' ''red-kali'' (d_command dec) res
                         execution_time s1
              in (Inr \<lparr>observation = obs, reasoning = d_reasoning dec, action = d_command dec,
                       result = stdout res @ stderr res, success = (exit_code res = 0),
                       execution_time_ms = execution_time,
                       phase = Some (case d_phase dec of None \<Rightarrow> ''unknown'' | Some p \<Rightarrow> p)\<rparr>,
                  s2)))"

text \<open>
  \<^verbatim>\<open>
  def execute_blue_team_turn(self) -> dict:
      telemetry = self.blue_agent.monitor_system()
      history = self.db.get_recent_context(game_id=.., team='blue', limit=10)
      defense = self.blue_agent.decide_defense(telemetry, history)
      # Execute defensive action if needed
      result = {'stdout': '', 'stderr': '', 'exit_code': 0}
      execution_time = 0
      if defense['defensive_action'] != 'none':
          start_time = time.time()
          result = self.execute_in_container(container='blue-target',
              command=defense['defensive_action'])
          execution_time = int((time.time() - start_time) * 1000)
      self.db.log_telemetry(round_id=self.round_number, telemetry=telemetry)
      return {'observation': json.dumps(telemetry), 'reasoning': defense['reasoning'],
          'action': defense['defensive_action'], 'result': result['stdout'] + result['stderr'],
          'success': result['exit_code'] == 0, 'execution_time_ms': execution_time}
  \<close>
\<close>

definition execute_blue_team_turn :: "env \<Rightarrow> orchestrator \<Rightarrow> (exn + turn) \<times> orchestrator" where
  "execute_blue_team_turn E s =
     (let tel = blue_monitor E s;
          def = blue_decide E s;
          executed =
            (if defensive_action def \<noteq> ''none''
             then (case execute_in_container E s ''blue-target'' (defensive_action def) of
                     (Inl e, s1) \<Rightarrow> (Inl e, s1)
                   | (Inr res, s1) \<Rightarrow> (Inr (res, elapsed_ms E s1), s1))
             else (Inr (\<lparr>exit_code = 0, stdout = '''', stderr = ''''\<rparr>, 0), s))
      in case executed of
           (Inl e, s1) \<Rightarrow> (Inl e, s1)
         | (Inr (res, execution_time), s1) \<Rightarrow>
             (Inr \<lparr>observation = tel, reasoning = df_reasoning def,
                   action = defensive_action def, result = stdout res @ stderr res,
                   success = (exit_code res = 0), execution_time_ms = execution_time,
                   phase = None\<rparr>,
              log_telemetry (round_number s1) tel s1))"

subsection \<open>Scoring\<close>

text \<open>
  \<^verbatim>\<open>
  def award_points(self, team: str, points: int, event_type: str, round_id: str):
      self.db.update_score(self.current_game_id, team, points)
      self.db.record_event(game_id=.., round_id=round_id, event_type=event_type, team=team,
          description=f"{team} team: {event_type}", points=points)

  def evaluate_round(self, round_id: str, red_result: dict, blue_result: dict):
      if self.detect_port_scan(red_result):
          self.award_points('red', 10, 'port_scan_complete', round_id)
      if self.detect_service_identification(red_result):
          self.award_points('red', 15, 'service_identified', round_id)
      if self.detect_shell_access(red_result):
          self.award_points('red', 100, 'shell_access_gained', round_id)
      if self.detect_attack_blocked(blue_result):
          self.award_points('blue', 50, 'attack_blocked', round_id)
      if self.detect_ip_blocked(blue_result):
          self.award_points('blue', 75, 'attacker_ip_banned', round_id)
      if self.detect_service_down(blue_result):
          self.award_points('blue', -50, 'service_down', round_id)
  \<close>
\<close>

definition award_points :: "string \<Rightarrow> int \<Rightarrow> string \<Rightarrow> nat \<Rightarrow> orchestrator \<Rightarrow> orchestrator" where
  "award_points tm pts ty rid s =
     record_event rid ty tm (tm @ '' team: '' @ ty) pts (update_score tm pts s)"

definition evaluate_round :: "env \<Rightarrow> nat \<Rightarrow> turn \<Rightarrow> turn \<Rightarrow> orchestrator \<Rightarrow> orchestrator" where
  "evaluate_round E rid red_result blue_result s =
     (let s1 = (if detect_port_scan E red_result
                then award_points ''red'' 10 ''port_scan_complete'' rid s else s);
          s2 = (if detect_service_identification E red_result
                then award_points ''red'' 15 ''service_identified'' rid s1 else s1);
          s3 = (if detect_shell_access E red_result
                then award_points ''red'' 100 ''shell_access_gained'' rid s2 else s2);
          s4 = (if detect_attack_blocked E blue_result
                then award_points ''blue'' 50 ''attack_blocked'' rid s3 else s3);
          s5 = (if detect_ip_blocked E blue_result
                then award_points ''blue'' 75 ''attacker_ip_banned'' rid s4 else s4)
      in if detect_service_down E blue_result
         then award_points ''blue'' (- 50) ''service_down'' rid s5 else s5)"

subsection \<open>The game loop\<close>

text \<open>
  \<^verbatim>\<open>
  def run_game_loop(self, max_rounds: int):
      while self.round_number < max_rounds:
          self.round_number += 1
          print(f"Round {self.round_number} - Phase: {self.get_current_phase()}")
          red_result = self.execute_red_team_turn()
          blue_result = self.execute_blue_team_turn()
          # Log round to database
          round_id = self.db.log_round(game_id=.., round_num=self.round_number,
              red_data=red_result, blue_data=blue_result)
          # Evaluate events and update scores
          self.evaluate_round(round_id, red_result, blue_result)
          # Check win conditions
          if self.check_game_over():
              break
          time.sleep(2)
      # End game
      self.end_game()
  \<close>
  \<open>run_round\<close> is the body of the loop from the increment of the counter to the call of
  \<^verbatim>\<open>evaluate_round\<close>; \<open>run_game_loop_while\<close> is the \<^verbatim>\<open>while\<close> statement with its
  \<^verbatim>\<open>break\<close>.
\<close>

definition run_round :: "env \<Rightarrow> orchestrator \<Rightarrow> exn + orchestrator" where
  "run_round E s =
     (let s0 = s\<lparr>round_number := round_number s + 1\<rparr>
      in case execute_red_team_turn E s0 of
           (Inl e, s1) \<Rightarrow> Inl e
         | (Inr red_result, s1) \<Rightarrow>
             (case execute_blue_team_turn E s1 of
                (Inl e, s2) \<Rightarrow> Inl e
              | (Inr blue_result, s2) \<Rightarrow>
                  (case log_round (round_number s2) red_result blue_result s2 of
                     (rid, s3) \<Rightarrow> Inr (evaluate_round E rid red_result blue_result s3))))"

subsection \<open>What one round changes\<close>

text \<open>
  The events a round's scoring appends, read off \<^verbatim>\<open>evaluate_round\<close> and
  \<^verbatim>\<open>award_points\<close>; the points a list of events holds for one team; and the frame of
  the executor and the turns: they leave the counter, the game's row, the rounds and the
  events alone. The loop's termination rests on the counter's part of it.
\<close>

definition mk_event :: "nat \<Rightarrow> string \<Rightarrow> int \<Rightarrow> string \<Rightarrow> event_row" where
  "mk_event rid tm pts ty =
     \<lparr>ev_round_id = rid, event_type = ty, team = tm, description = tm @ '' team: '' @ ty,
       points = pts\<rparr>"

definition round_events :: "env \<Rightarrow> nat \<Rightarrow> turn \<Rightarrow> turn \<Rightarrow> event_row list" where
  "round_events E rid red_result blue_result =
     (if detect_port_scan E red_result
      then [mk_event rid ''red'' 10 ''port_scan_complete''] else [])
     @ (if detect_service_identification E red_result
        then [mk_event rid ''red'' 15 ''service_identified''] else [])
     @ (if detect_shell_access E red_result
        then [mk_event rid ''red'' 100 ''shell_access_gained''] else [])
     @ (if detect_attack_blocked E blue_result
        then [mk_event rid ''blue'' 50 ''attack_blocked''] else [])
     @ (if detect_ip_blocked E blue_result
        then [mk_event rid ''blue'' 75 ''attacker_ip_banned''] else [])
     @ (if detect_service_down E blue_result
        then [mk_event rid ''blue'' (- 50) ''service_down''] else [])"

definition side_points :: "string \<Rightarrow> event_row list \<Rightarrow> int" where
  "side_points tm evs = sum_list (map points (filter (\<lambda>e. team e = tm) evs))"

definition same_game :: "orchestrator \<Rightarrow> orchestrator \<Rightarrow> bool" where
  "same_game s s' =
     (round_number s' = round_number s \<and> red_score s' = red_score s
      \<and> blue_score s' = blue_score s \<and> status s' = status s
      \<and> rounds s' = rounds s \<and> events s' = events s)"

definition new_round_row :: "orchestrator \<Rightarrow> turn \<Rightarrow> turn \<Rightarrow> round_row" where
  "new_round_row s red blue =
     \<lparr>round_id = length (rounds s), round_num = round_number s + 1, red_data = red,
       blue_data = blue, red_points_earned = 0, blue_points_earned = 0\<rparr>"

text \<open>
  Whether a round's two turns make the detectors report the event kind \<open>k\<close>, and how
  many events of kind \<open>k\<close> a list holds.
\<close>

definition detected :: "env \<Rightarrow> string \<Rightarrow> turn \<Rightarrow> turn \<Rightarrow> bool" where
  "detected E k red_result blue_result =
     ((k = ''port_scan_complete'' \<and> detect_port_scan E red_result)
      \<or> (k = ''service_identified'' \<and> detect_service_identification E red_result)
      \<or> (k = ''shell_access_gained'' \<and> detect_shell_access E red_result)
      \<or> (k = ''attack_blocked'' \<and> detect_attack_blocked E blue_result)
      \<or> (k = ''attacker_ip_banned'' \<and> detect_ip_blocked E blue_result)
      \<or> (k = ''service_down'' \<and> detect_service_down E blue_result))"

definition kind_count :: "string \<Rightarrow> event_row list \<Rightarrow> nat" where
  "kind_count k evs = length (filter (\<lambda>e. event_type e = k) evs)"

lemma side_points_append [simp]:
  "side_points tm (xs @ ys) = side_points tm xs + side_points tm ys"
  by (simp add: side_points_def)

lemma side_points_Nil [simp]: "side_points tm [] = 0"
  by (simp add: side_points_def)

lemma side_points_mk_event [simp]:
  "side_points tm [mk_event rid tm' pts ty] = (if tm' = tm then pts else 0)"
  by (simp add: side_points_def mk_event_def)

lemma award_points_red:
  "award_points ''red'' pts ty rid s =
     s\<lparr>red_score := red_score s + pts, events := events s @ [mk_event rid ''red'' pts ty]\<rparr>"
  by (simp add: award_points_def update_score_def record_event_def mk_event_def)

lemma award_points_blue:
  "award_points ''blue'' pts ty rid s =
     s\<lparr>blue_score := blue_score s + pts, events := events s @ [mk_event rid ''blue'' pts ty]\<rparr>"
  by (simp add: award_points_def update_score_def record_event_def mk_event_def)

lemma evaluate_round_eq:
  "evaluate_round E rid red blue s =
     s\<lparr>red_score := red_score s + side_points ''red'' (round_events E rid red blue),
       blue_score := blue_score s + side_points ''blue'' (round_events E rid red blue),
       events := events s @ round_events E rid red blue\<rparr>"
  by (simp add: evaluate_round_def Let_def award_points_red award_points_blue round_events_def)

lemma same_game_refl [simp]: "same_game s s"
  by (simp add: same_game_def)

lemma same_game_trans: "same_game s s' \<Longrightarrow> same_game s' s'' \<Longrightarrow> same_game s s''"
  by (simp add: same_game_def)

lemma execute_in_container_try_same_game:
  "same_game s (snd (execute_in_container_try E s c cmd))"
  by (simp add: execute_in_container_try_def Let_def same_game_def split: sum.splits prod.splits)

lemma execute_in_container_returns:
  "\<exists>r s'. execute_in_container E s c cmd = (Inr r, s') \<and> same_game s s'"
proof -
  obtain x s' where t: "execute_in_container_try E s c cmd = (x, s')"
    by (cases "execute_in_container_try E s c cmd")
  then have "same_game s s'"
    using execute_in_container_try_same_game[of s E c cmd] by simp
  then show ?thesis
    using t by (cases x) (auto simp: execute_in_container_def)
qed

lemma execute_red_team_turn_returns:
  "\<exists>t s'. execute_red_team_turn E s = (Inr t, s') \<and> same_game s s'"
proof -
  obtain r s1 where
    "execute_in_container E s ''red-kali'' (d_command (red_decide E s)) = (Inr r, s1)"
    and "same_game s s1"
    using execute_in_container_returns by blast
  then show ?thesis
    by (simp add: execute_red_team_turn_def Let_def log_command_def same_game_def)
qed

lemma execute_blue_team_turn_returns:
  "\<exists>t s'. execute_blue_team_turn E s = (Inr t, s') \<and> same_game s s'"
proof (cases "defensive_action (blue_decide E s) = ''none''")
  case True
  then show ?thesis
    by (simp add: execute_blue_team_turn_def Let_def log_telemetry_def same_game_def)
next
  case False
  obtain r s1 where
    "execute_in_container E s ''blue-target'' (defensive_action (blue_decide E s)) = (Inr r, s1)"
    and "same_game s s1"
    using execute_in_container_returns by blast
  then show ?thesis
    using False by (simp add: execute_blue_team_turn_def Let_def log_telemetry_def same_game_def)
qed

lemma run_round_effect:
  "\<exists>s' red blue.
     run_round E s = Inr s'
     \<and> round_number s' = round_number s + 1
     \<and> status s' = status s
     \<and> rounds s' = rounds s @ [new_round_row s red blue]
     \<and> events s' = events s @ round_events E (length (rounds s)) red blue
     \<and> red_score s' =
         red_score s + side_points ''red'' (round_events E (length (rounds s)) red blue)
     \<and> blue_score s' =
         blue_score s + side_points ''blue'' (round_events E (length (rounds s)) red blue)"
proof -
  let ?s0 = "s\<lparr>round_number := round_number s + 1\<rparr>"
  obtain red s1 where r: "execute_red_team_turn E ?s0 = (Inr red, s1)"
    and f1: "same_game ?s0 s1"
    using execute_red_team_turn_returns by blast
  obtain blue s2 where b: "execute_blue_team_turn E s1 = (Inr blue, s2)"
    and f2: "same_game s1 s2"
    using execute_blue_team_turn_returns by blast
  have f: "same_game ?s0 s2" using f1 f2 by (rule same_game_trans)
  let ?s3 = "s2\<lparr>rounds := rounds s2 @ [new_round_row s red blue]\<rparr>"
  have run: "run_round E s = Inr (evaluate_round E (length (rounds s)) red blue ?s3)"
    using r b f by (simp add: run_round_def Let_def log_round_def new_round_row_def same_game_def)
  show ?thesis
    using f unfolding run
    by (intro exI[of _ "evaluate_round E (length (rounds s)) red blue ?s3"]
          exI[of _ red] exI[of _ blue])
       (simp add: evaluate_round_eq same_game_def)
qed

lemma run_round_round_number:
  "run_round E s = Inr s' \<Longrightarrow> round_number s' = round_number s + 1"
  using run_round_effect[of E s] by auto

subsection \<open>The loop and the end of the game\<close>

function run_game_loop_while :: "env \<Rightarrow> int \<Rightarrow> orchestrator \<Rightarrow> exn + orchestrator" where
  "run_game_loop_while E max_rounds s =
     (if round_number s < max_rounds
      then (case run_round E s of
              Inl e \<Rightarrow> Inl e
            | Inr s' \<Rightarrow>
                if check_game_over E s' then Inr s' else run_game_loop_while E max_rounds s')
      else Inr s)"
  by pat_completeness auto
termination
  by (relation "measure (\<lambda>(E, max_rounds, s). nat (max_rounds - round_number s))")
     (auto dest: run_round_round_number)

text \<open>
  Modelled from the spec: \<^verbatim>\<open>end_game\<close> is called after the loop and defined nowhere
  in the sources. The spec's state machine over the game is
  \<^verbatim>\<open>running -> ... -> completed\<close>: \<open>end_game\<close> is taken to set the status and to leave
  the rest of the state alone.
\<close>

definition end_game :: "orchestrator \<Rightarrow> orchestrator" where
  "end_game s = s\<lparr>status := ''completed''\<rparr>"

definition run_game_loop :: "env \<Rightarrow> int \<Rightarrow> orchestrator \<Rightarrow> exn + orchestrator" where
  "run_game_loop E max_rounds s =
     (case run_game_loop_while E max_rounds s of
        Inl e \<Rightarrow> Inl e
      | Inr s' \<Rightarrow> Inr (end_game s'))"

text \<open>
  The state after \<open>n\<close> iterations of the loop's body: what an observer sees between two
  rounds.
\<close>

fun play_rounds :: "env \<Rightarrow> nat \<Rightarrow> orchestrator \<Rightarrow> exn + orchestrator" where
  "play_rounds E 0 s = Inr s"
| "play_rounds E (Suc n) s =
     (case run_round E s of Inl e \<Rightarrow> Inl e | Inr s' \<Rightarrow> play_rounds E n s')"

subsection \<open>The phases\<close>

text \<open>
  The table of the section on game phases, loaded once and never changed:
  reconnaissance (rounds 1-5), initial access (rounds 6-15), privilege escalation
  (rounds 16-25), mission completion (rounds 26-30).
\<close>

datatype game_phase = Reconnaissance | InitialAccess | PrivilegeEscalation | MissionCompletion

definition phase_table :: "(int \<times> int \<times> game_phase) list" where
  "phase_table =
     [(1, 5, Reconnaissance), (6, 15, InitialAccess), (16, 25, PrivilegeEscalation),
      (26, 30, MissionCompletion)]"

text \<open>
  Modelled from the spec: \<^verbatim>\<open>get_current_phase\<close> is called by the loop (in the
  \<^verbatim>\<open>print\<close> at the top of a round) and defined nowhere in the sources. The spec's
  contract is \<^verbatim>\<open>phase_for(round_number) -> Phase\<close>, a pure, total function over the
  configured phase-range table, with the edge policy: if the round number exceeds all
  configured ranges, return the final configured phase (do not error). \<open>phase_lookup\<close>
  returns the phase of the first range that holds the number and, when no range does,
  the phase given as the final one; \<open>phase_for\<close> looks the number up in the configured
  table, the final phase being that of the table's last range. The spec says nothing of
  a number below every range (the loop's counter is at least 1 when the phase is asked
  for); the lookup gives it the final phase too.
\<close>

fun phase_lookup :: "(int \<times> int \<times> game_phase) list \<Rightarrow> game_phase \<Rightarrow> int \<Rightarrow> game_phase" where
  "phase_lookup [] final n = final"
| "phase_lookup ((lo, hi, p) # rest) final n =
     (if lo \<le> n \<and> n \<le> hi then p else phase_lookup rest final n)"

definition phase_for :: "int \<Rightarrow> game_phase" where
  "phase_for n = phase_lookup phase_table (snd (snd (last phase_table))) n"

text \<open>
  Modelled from the spec: \<^verbatim>\<open>get_current_phase\<close> is missing. It is \<open>phase_for\<close> at
  the orchestrator's counter.
\<close>

definition get_current_phase :: "orchestrator \<Rightarrow> game_phase" where
  "get_current_phase s = phase_for (round_number s)"

text \<open>
  The ranges of a table are ordered and do not overlap: each range is not empty and
  starts after the one before it ends.
\<close>

fun ordered_ranges :: "(int \<times> int \<times> game_phase) list \<Rightarrow> bool" where
  "ordered_ranges [] = True"
| "ordered_ranges [(lo, hi, p)] = (lo \<le> hi)"
| "ordered_ranges ((lo, hi, p) # (lo', hi', p') # rest) =
     (lo \<le> hi \<and> hi < lo' \<and> ordered_ranges ((lo', hi', p') # rest))"

subsection \<open>A concrete run\<close>

text \<open>
  Collaborators for the concrete instances below. Two containers exist. The workloads
  answer \<^verbatim>\<open>nmap blue-target\<close> with an open port, run \<^verbatim>\<open>rm -rf /\<close> with exit
  code 0, and have no other command; \<^verbatim>\<open>exec_run\<close> raises a timeout on
  \<^verbatim>\<open>sleep 60\<close>. The red agent always scans, the blue agent
  always answers \<^verbatim>\<open>none\<close>, the port scan detector looks for an open port in the
  turn's result, and the game is never over before the round limit.
\<close>

definition demo_env :: env where
  "demo_env =
     \<lparr>containers_get = (\<lambda>s c. if c = ''red-kali'' \<or> c = ''blue-target'' then Inr c
                               else Inl (NotFound (''No such container: '' @ c))),
      exec_run = (\<lambda>s obj cmd t.
         if cmd = [''bash'', ''-c'', ''nmap blue-target'']
         then Inr (0, Some ''22/tcp open ssh'', None)
         else if cmd = [''bash'', ''-c'', ''rm -rf /''] then Inr (0, None, None)
         else if cmd = [''bash'', ''-c'', ''sleep 60''] then Inl (Timeout ''timed out'')
         else Inr (127, None, Some ''bash: command not found'')),
      decode = (\<lambda>b. Inr b),
      red_observe = (\<lambda>s. ''{}''),
      red_decide = (\<lambda>s. \<lparr>d_reasoning = ''scan'', d_command = ''nmap blue-target'',
                            d_phase = Some ''reconnaissance''\<rparr>),
      blue_monitor = (\<lambda>s. ''{}''),
      blue_decide = (\<lambda>s. \<lparr>threat_assessment = ''none'', df_reasoning = ''quiet'',
                             defensive_action = ''none''\<rparr>),
      elapsed_ms = (\<lambda>s. 12),
      detect_port_scan = (\<lambda>t. str_in ''/tcp open'' (result t)),
      detect_service_identification = (\<lambda>t. False),
      detect_shell_access = (\<lambda>t. False),
      detect_attack_blocked = (\<lambda>t. False),
      detect_ip_blocked = (\<lambda>t. False),
      detect_service_down = (\<lambda>t. False),
      check_game_over = (\<lambda>s. False)\<rparr>"

lemmas demo_simps =
  demo_env_def initial_def execute_in_container_def execute_in_container_try_def
  decode_stream_def execute_red_team_turn_def execute_blue_team_turn_def
  log_round_def log_command_def log_telemetry_def Let_def

section \<open>Properties\<close>

subsection \<open>The denylist check is substring containment\<close>

lemma startswith_iff: "startswith s p \<longleftrightarrow> (\<exists>ss. s = p @ ss)"
  by (induction s p rule: startswith.induct) auto

lemma str_in_iff: "str_in needle hay \<longleftrightarrow> (\<exists>ps ss. hay = ps @ needle @ ss)"
proof (induction hay)
  case Nil
  then show ?case by auto
next
  case (Cons c cs)
  show ?case
  proof
    assume "str_in needle (c # cs)"
    then consider "startswith (c # cs) needle" | "str_in needle cs" by auto
    then show "\<exists>ps ss. c # cs = ps @ needle @ ss"
    proof cases
      case 1
      then obtain ss where "c # cs = needle @ ss" by (auto simp: startswith_iff)
      then have "c # cs = [] @ needle @ ss" by simp
      then show ?thesis by blast
    next
      case 2
      then obtain ps ss where "cs = ps @ needle @ ss" using Cons.IH by blast
      then have "c # cs = (c # ps) @ needle @ ss" by simp
      then show ?thesis by blast
    qed
  next
    assume "\<exists>ps ss. c # cs = ps @ needle @ ss"
    then obtain ps ss where eq: "c # cs = ps @ needle @ ss" by blast
    show "str_in needle (c # cs)"
    proof (cases ps)
      case Nil
      with eq have "startswith (c # cs) needle" by (auto simp: startswith_iff)
      then show ?thesis by simp
    next
      case (Cons p ps')
      with eq have "cs = ps' @ needle @ ss" by simp
      then have "str_in needle cs" using Cons.IH by blast
      then show ?thesis by simp
    qed
  qed
qed

lemma validate_command_loop_iff:
  "validate_command_loop bs command \<longleftrightarrow> \<not> (\<exists>b \<in> set bs. str_in b command)"
  by (induction bs) auto

text \<open>
  C9. \<^verbatim>\<open>validate_command\<close> returns False exactly when the command contains
  \<^verbatim>\<open>'rm -rf /'\<close>, \<^verbatim>\<open>'dd'\<close> or the fork bomb \<^verbatim>\<open>':(){ :|:& };:'\<close> as a contiguous
  substring, wherever it stands; every other command is accepted. A command with
  \<^verbatim>\<open>dd\<close> inside a longer word, such as \<^verbatim>\<open>adduser bob\<close>, is rejected, and
  \<^verbatim>\<open>nmap -sV target\<close> is accepted.
\<close>

theorem validate_command_substring:
  "((validate_command command = False) =
     ((\<exists>ps ss. command = ps @ ''rm -rf /'' @ ss)
      \<or> (\<exists>ps ss. command = ps @ ''dd'' @ ss)
      \<or> (\<exists>ps ss. command = ps @ '':(){ :|:& };:'' @ ss)))
   \<and> validate_command ''adduser bob'' = False
   \<and> validate_command ''nmap -sV target'' = True"
proof -
  have "(validate_command command = False) =
     ((\<exists>ps ss. command = ps @ ''rm -rf /'' @ ss)
      \<or> (\<exists>ps ss. command = ps @ ''dd'' @ ss)
      \<or> (\<exists>ps ss. command = ps @ '':(){ :|:& };:'' @ ss))"
    unfolding validate_command_def BLOCKED_COMMANDS_def validate_command_loop_iff
    by (simp only: str_in_iff set_simps bex_simps simp_thms)
  moreover have "validate_command ''adduser bob'' = False"
    by (simp add: validate_command_def BLOCKED_COMMANDS_def)
  moreover have "validate_command ''nmap -sV target'' = True"
    by (simp add: validate_command_def BLOCKED_COMMANDS_def)
  ultimately show ?thesis by blast
qed

subsection \<open>The executor never raises\<close>

lemma execute_in_container_fault:
  "execute_in_container_try E s c cmd = (Inl e, s') \<Longrightarrow>
   execute_in_container E s c cmd =
     (Inr \<lparr>exit_code = - 1, stdout = '''', stderr = str e\<rparr>, s')"
  by (simp add: execute_in_container_def)

text \<open>
  C1. For every workload identifier and every command, whatever the Docker client and
  the decoding do, \<^verbatim>\<open>execute_in_container\<close> returns a result dict and raises nothing.
  When the workload is not found (\<^verbatim>\<open>containers.get\<close> raises), when \<^verbatim>\<open>exec_run\<close>
  raises (a transport error, a timeout), and whenever anything in the \<^verbatim>\<open>try\<close> raises,
  the result has exit code -1, an empty stdout, and the exception's text as stderr.
\<close>

theorem execute_in_container_never_raises:
  "(\<exists>r s'. execute_in_container E s container command = (Inr r, s'))
   \<and> (\<forall>e. containers_get E s container = Inl e \<longrightarrow>
          fst (execute_in_container E s container command) =
            Inr \<lparr>exit_code = - 1, stdout = '''', stderr = str e\<rparr>)
   \<and> (\<forall>obj e. containers_get E s container = Inr obj \<longrightarrow>
          exec_run E s obj [''bash'', ''-c'', command] 30 = Inl e \<longrightarrow>
          fst (execute_in_container E s container command) =
            Inr \<lparr>exit_code = - 1, stdout = '''', stderr = str e\<rparr>)
   \<and> (\<forall>e s'. execute_in_container_try E s container command = (Inl e, s') \<longrightarrow>
          execute_in_container E s container command =
            (Inr \<lparr>exit_code = - 1, stdout = '''', stderr = str e\<rparr>, s'))"
proof (intro conjI allI impI)
  show "\<exists>r s'. execute_in_container E s container command = (Inr r, s')"
    using execute_in_container_returns[of E s container command] by blast
next
  fix e assume "containers_get E s container = Inl e"
  then show "fst (execute_in_container E s container command) =
      Inr \<lparr>exit_code = - 1, stdout = '''', stderr = str e\<rparr>"
    by (simp add: execute_in_container_def execute_in_container_try_def)
next
  fix obj e
  assume "containers_get E s container = Inr obj"
    and "exec_run E s obj [''bash'', ''-c'', command] 30 = Inl e"
  then show "fst (execute_in_container E s container command) =
      Inr \<lparr>exit_code = - 1, stdout = '''', stderr = str e\<rparr>"
    by (simp add: execute_in_container_def execute_in_container_try_def Let_def)
next
  fix e s'
  assume "execute_in_container_try E s container command = (Inl e, s')"
  then show "execute_in_container E s container command =
      (Inr \<lparr>exit_code = - 1, stdout = '''', stderr = str e\<rparr>, s')"
    by (rule execute_in_container_fault)
qed

theorem execute_in_container_never_raises_witness:
  "containers_get demo_env initial ''nowhere'' = Inl (NotFound ''No such container: nowhere'')
   \<and> fst (execute_in_container demo_env initial ''nowhere'' ''ls'') =
       Inr \<lparr>exit_code = - 1, stdout = '''', stderr = ''No such container: nowhere''\<rparr>
   \<and> containers_get demo_env initial ''red-kali'' = Inr ''red-kali''
   \<and> exec_run demo_env initial ''red-kali'' [''bash'', ''-c'', ''sleep 60''] 30 =
       Inl (Timeout ''timed out'')
   \<and> fst (execute_in_container demo_env initial ''red-kali'' ''sleep 60'') =
       Inr \<lparr>exit_code = - 1, stdout = '''', stderr = ''timed out''\<rparr>
   \<and> execute_in_container_try demo_env initial ''red-kali'' ''sleep 60'' =
       (Inl (Timeout ''timed out''),
        initial\<lparr>exec_calls := [(''red-kali'', [''bash'', ''-c'', ''sleep 60''])]\<rparr>)
   \<and> execute_in_container demo_env initial ''red-kali'' ''sleep 60'' =
       (Inr \<lparr>exit_code = - 1, stdout = '''', stderr = ''timed out''\<rparr>,
        initial\<lparr>exec_calls := [(''red-kali'', [''bash'', ''-c'', ''sleep 60''])]\<rparr>)"
proof -
  have a: "containers_get demo_env initial ''nowhere'' =
      Inl (NotFound ''No such container: nowhere'')"
    by (simp add: demo_env_def)
  have b: "containers_get demo_env initial ''red-kali'' = Inr ''red-kali''"
    by (simp add: demo_env_def)
  have c: "exec_run demo_env initial ''red-kali'' [''bash'', ''-c'', ''sleep 60''] 30 =
      Inl (Timeout ''timed out'')"
    by (simp add: demo_env_def)
  have d: "execute_in_container_try demo_env initial ''red-kali'' ''sleep 60'' =
       (Inl (Timeout ''timed out''),
        initial\<lparr>exec_calls := [(''red-kali'', [''bash'', ''-c'', ''sleep 60''])]\<rparr>)"
    by (simp add: execute_in_container_try_def demo_env_def initial_def)
  from execute_in_container_never_raises[of demo_env initial "''nowhere''" "''ls''"] a
  have "fst (execute_in_container demo_env initial ''nowhere'' ''ls'') =
      Inr \<lparr>exit_code = - 1, stdout = '''', stderr = ''No such container: nowhere''\<rparr>"
    by simp
  moreover
  from execute_in_container_never_raises[of demo_env initial "''red-kali''" "''sleep 60''"] b c
  have "fst (execute_in_container demo_env initial ''red-kali'' ''sleep 60'') =
      Inr \<lparr>exit_code = - 1, stdout = '''', stderr = ''timed out''\<rparr>"
    by simp
  moreover
  from execute_in_container_never_raises[of demo_env initial "''red-kali''" "''sleep 60''"] d
  have "execute_in_container demo_env initial ''red-kali'' ''sleep 60'' =
       (Inr \<lparr>exit_code = - 1, stdout = '''', stderr = ''timed out''\<rparr>,
        initial\<lparr>exec_calls := [(''red-kali'', [''bash'', ''-c'', ''sleep 60''])]\<rparr>)"
    by simp
  ultimately show ?thesis using a b c d by simp
qed

subsection \<open>The success flag of a turn\<close>

lemma execute_in_container_returned:
  "execute_in_container_try E s c cmd = (Inr r0, s') \<Longrightarrow>
   execute_in_container E s c cmd = (Inr r0, s')"
  by (simp add: execute_in_container_def)

lemma execute_in_container_try_program_exit:
  "containers_get E s c = Inr obj \<Longrightarrow>
   exec_run E s obj [''bash'', ''-c'', cmd] 30 = Inr (code, o0, o1) \<Longrightarrow>
   decode_stream E o0 = Inr out \<Longrightarrow> decode_stream E o1 = Inr err \<Longrightarrow>
   fst (execute_in_container_try E s c cmd) =
     Inr \<lparr>exit_code = code, stdout = out, stderr = err\<rparr>"
  by (simp add: execute_in_container_try_def Let_def)

text \<open>
  C10. A turn's success flag is true exactly when the exit code of the command's result
  is 0. The red turn always runs its command: its flag is that of the executor's result;
  when the command ran in the workload, the flag is true exactly when the program's own
  exit code, the one \<^verbatim>\<open>exec_run\<close> returned, is 0, so every nonzero program exit is an
  unsuccessful turn; and the flag is false when the executor met a fault (exit code
  -1). The blue turn with the decision \<^verbatim>\<open>none\<close> hands no command to a workload and is
  recorded as successful (the default result has exit code 0); with any other decision
  its flag follows the executor's result in the same way.
\<close>

theorem turn_success_flag:
  "(\<exists>t s'. execute_red_team_turn E s = (Inr t, s')
      \<and> (\<exists>r s1. execute_in_container E s ''red-kali'' (d_command (red_decide E s)) = (Inr r, s1)
            \<and> success t = (exit_code r = 0))
      \<and> (\<forall>e s1. execute_in_container_try E s ''red-kali'' (d_command (red_decide E s)) = (Inl e, s1)
            \<longrightarrow> \<not> success t)
      \<and> (\<forall>r0 s1. execute_in_container_try E s ''red-kali'' (d_command (red_decide E s))
                     = (Inr r0, s1)
            \<longrightarrow> success t = (exit_code r0 = 0))
      \<and> (\<forall>obj code o0 o1 out err.
            containers_get E s ''red-kali'' = Inr obj
            \<longrightarrow> exec_run E s obj [''bash'', ''-c'', d_command (red_decide E s)] 30
                  = Inr (code, o0, o1)
            \<longrightarrow> decode_stream E o0 = Inr out
            \<longrightarrow> decode_stream E o1 = Inr err
            \<longrightarrow> success t = (code = 0)))
   \<and> (\<exists>t s'. execute_blue_team_turn E s = (Inr t, s')
      \<and> (defensive_action (blue_decide E s) = ''none''
            \<longrightarrow> success t \<and> exec_calls s' = exec_calls s)
      \<and> (defensive_action (blue_decide E s) \<noteq> ''none''
            \<longrightarrow> (\<exists>r s1. execute_in_container E s ''blue-target''
                            (defensive_action (blue_decide E s)) = (Inr r, s1)
                   \<and> success t = (exit_code r = 0)))
      \<and> (\<forall>e s1. defensive_action (blue_decide E s) \<noteq> ''none''
            \<longrightarrow> execute_in_container_try E s ''blue-target''
                   (defensive_action (blue_decide E s)) = (Inl e, s1)
            \<longrightarrow> \<not> success t)
      \<and> (\<forall>r0 s1. defensive_action (blue_decide E s) \<noteq> ''none''
            \<longrightarrow> execute_in_container_try E s ''blue-target''
                   (defensive_action (blue_decide E s)) = (Inr r0, s1)
            \<longrightarrow> success t = (exit_code r0 = 0))
      \<and> (\<forall>obj code o0 o1 out err.
            defensive_action (blue_decide E s) \<noteq> ''none''
            \<longrightarrow> containers_get E s ''blue-target'' = Inr obj
            \<longrightarrow> exec_run E s obj [''bash'', ''-c'', defensive_action (blue_decide E s)] 30
                  = Inr (code, o0, o1)
            \<longrightarrow> decode_stream E o0 = Inr out
            \<longrightarrow> decode_stream E o1 = Inr err
            \<longrightarrow> success t = (code = 0)))"
proof
  let ?c = "d_command (red_decide E s)"
  obtain r s1 where x: "execute_in_container E s ''red-kali'' ?c = (Inr r, s1)"
    using execute_in_container_returns by blast
  have fault: "\<not> exit_code r = 0"
    if "execute_in_container_try E s ''red-kali'' ?c = (Inl e, s1')" for e s1'
    using execute_in_container_fault[OF that] x by auto
  have returned: "r = r0"
    if "execute_in_container_try E s ''red-kali'' ?c = (Inr r0, s1')" for r0 s1'
    using execute_in_container_returned[OF that] x by simp
  have program: "exit_code r = code"
    if "containers_get E s ''red-kali'' = Inr obj"
      and "exec_run E s obj [''bash'', ''-c'', ?c] 30 = Inr (code, o0, o1)"
      and "decode_stream E o0 = Inr out" and "decode_stream E o1 = Inr err"
    for obj code o0 o1 out err
  proof -
    have "fst (execute_in_container_try E s ''red-kali'' ?c) =
        Inr \<lparr>exit_code = code, stdout = out, stderr = err\<rparr>"
      using that by (rule execute_in_container_try_program_exit)
    then obtain s1' where "execute_in_container_try E s ''red-kali'' ?c =
        (Inr \<lparr>exit_code = code, stdout = out, stderr = err\<rparr>, s1')"
      by (cases "execute_in_container_try E s ''red-kali'' ?c") simp
    then have "r = \<lparr>exit_code = code, stdout = out, stderr = err\<rparr>"
      by (rule returned)
    then show ?thesis by simp
  qed
  show "\<exists>t s'. execute_red_team_turn E s = (Inr t, s')
      \<and> (\<exists>r s1. execute_in_container E s ''red-kali'' ?c = (Inr r, s1)
            \<and> success t = (exit_code r = 0))
      \<and> (\<forall>e s1. execute_in_container_try E s ''red-kali'' ?c = (Inl e, s1)
            \<longrightarrow> \<not> success t)
      \<and> (\<forall>r0 s1. execute_in_container_try E s ''red-kali'' ?c = (Inr r0, s1)
            \<longrightarrow> success t = (exit_code r0 = 0))
      \<and> (\<forall>obj code o0 o1 out err.
            containers_get E s ''red-kali'' = Inr obj
            \<longrightarrow> exec_run E s obj [''bash'', ''-c'', ?c] 30 = Inr (code, o0, o1)
            \<longrightarrow> decode_stream E o0 = Inr out
            \<longrightarrow> decode_stream E o1 = Inr err
            \<longrightarrow> success t = (code = 0))"
    using x fault returned program
    by (auto simp add: execute_red_team_turn_def Let_def)
next
  let ?a = "defensive_action (blue_decide E s)"
  show "\<exists>t s'. execute_blue_team_turn E s = (Inr t, s')
      \<and> (?a = ''none'' \<longrightarrow> success t \<and> exec_calls s' = exec_calls s)
      \<and> (?a \<noteq> ''none''
            \<longrightarrow> (\<exists>r s1. execute_in_container E s ''blue-target'' ?a = (Inr r, s1)
                   \<and> success t = (exit_code r = 0)))
      \<and> (\<forall>e s1. ?a \<noteq> ''none''
            \<longrightarrow> execute_in_container_try E s ''blue-target'' ?a = (Inl e, s1)
            \<longrightarrow> \<not> success t)
      \<and> (\<forall>r0 s1. ?a \<noteq> ''none''
            \<longrightarrow> execute_in_container_try E s ''blue-target'' ?a = (Inr r0, s1)
            \<longrightarrow> success t = (exit_code r0 = 0))
      \<and> (\<forall>obj code o0 o1 out err.
            ?a \<noteq> ''none''
            \<longrightarrow> containers_get E s ''blue-target'' = Inr obj
            \<longrightarrow> exec_run E s obj [''bash'', ''-c'', ?a] 30 = Inr (code, o0, o1)
            \<longrightarrow> decode_stream E o0 = Inr out
            \<longrightarrow> decode_stream E o1 = Inr err
            \<longrightarrow> success t = (code = 0))"
  proof (cases "?a = ''none''")
    case True
    then show ?thesis
      by (simp add: execute_blue_team_turn_def Let_def log_telemetry_def)
  next
    case False
    obtain r s1 where x: "execute_in_container E s ''blue-target'' ?a = (Inr r, s1)"
      using execute_in_container_returns by blast
    have fault: "\<not> exit_code r = 0"
      if "execute_in_container_try E s ''blue-target'' ?a = (Inl e, s1')" for e s1'
      using execute_in_container_fault[OF that] x by auto
    have returned: "r = r0"
      if "execute_in_container_try E s ''blue-target'' ?a = (Inr r0, s1')" for r0 s1'
      using execute_in_container_returned[OF that] x by simp
    have program: "exit_code r = code"
      if "containers_get E s ''blue-target'' = Inr obj"
        and "exec_run E s obj [''bash'', ''-c'', ?a] 30 = Inr (code, o0, o1)"
        and "decode_stream E o0 = Inr out" and "decode_stream E o1 = Inr err"
      for obj code o0 o1 out err
    proof -
      have "fst (execute_in_container_try E s ''blue-target'' ?a) =
          Inr \<lparr>exit_code = code, stdout = out, stderr = err\<rparr>"
        using that by (rule execute_in_container_try_program_exit)
      then obtain s1' where "execute_in_container_try E s ''blue-target'' ?a =
          (Inr \<lparr>exit_code = code, stdout = out, stderr = err\<rparr>, s1')"
        by (cases "execute_in_container_try E s ''blue-target'' ?a") simp
      then have "r = \<lparr>exit_code = code, stdout = out, stderr = err\<rparr>"
        by (rule returned)
      then show ?thesis by simp
    qed
    show ?thesis
      using False x fault returned program
      by (auto simp add: execute_blue_team_turn_def Let_def)
  qed
qed

theorem turn_success_flag_witness:
  "defensive_action (blue_decide demo_env initial) = ''none''
   \<and> (\<exists>t s'. execute_blue_team_turn demo_env initial = (Inr t, s')
         \<and> success t \<and> exec_calls s' = [])
   \<and> execute_in_container_try
        (demo_env\<lparr>red_decide := \<lambda>s. \<lparr>d_reasoning = ''wait'', d_command = ''sleep 60'',
                                       d_phase = None\<rparr>\<rparr>)
        initial ''red-kali'' ''sleep 60''
       = (Inl (Timeout ''timed out''),
          initial\<lparr>exec_calls := [(''red-kali'', [''bash'', ''-c'', ''sleep 60''])]\<rparr>)
   \<and> (\<exists>t s'. execute_red_team_turn
                (demo_env\<lparr>red_decide := \<lambda>s. \<lparr>d_reasoning = ''wait'', d_command = ''sleep 60'',
                                               d_phase = None\<rparr>\<rparr>)
                initial = (Inr t, s')
         \<and> \<not> success t)
   \<and> defensive_action
        (blue_decide
          (demo_env\<lparr>blue_decide := \<lambda>s. \<lparr>threat_assessment = ''low'', df_reasoning = ''wait'',
                                          defensive_action = ''sleep 60''\<rparr>\<rparr>)
          initial) \<noteq> ''none''
   \<and> (\<exists>t s'. execute_blue_team_turn
                (demo_env\<lparr>blue_decide := \<lambda>s. \<lparr>threat_assessment = ''low'',
                                                df_reasoning = ''wait'',
                                                defensive_action = ''sleep 60''\<rparr>\<rparr>)
                initial = (Inr t, s')
         \<and> \<not> success t)
   \<and> exec_run demo_env initial ''red-kali'' [''bash'', ''-c'', ''whoami''] 30 =
       Inr (127, None, Some ''bash: command not found'')
   \<and> execute_in_container_try
        (demo_env\<lparr>red_decide := \<lambda>s. \<lparr>d_reasoning = ''look'', d_command = ''whoami'',
                                       d_phase = None\<rparr>\<rparr>)
        initial ''red-kali'' ''whoami''
       = (Inr \<lparr>exit_code = 127, stdout = '''', stderr = ''bash: command not found''\<rparr>,
          initial\<lparr>exec_calls := [(''red-kali'', [''bash'', ''-c'', ''whoami''])]\<rparr>)
   \<and> (\<exists>t s'. execute_red_team_turn
                (demo_env\<lparr>red_decide := \<lambda>s. \<lparr>d_reasoning = ''look'', d_command = ''whoami'',
                                               d_phase = None\<rparr>\<rparr>)
                initial = (Inr t, s')
         \<and> \<not> success t)
   \<and> (\<exists>t s'. execute_blue_team_turn
                (demo_env\<lparr>blue_decide := \<lambda>s. \<lparr>threat_assessment = ''low'',
                                                df_reasoning = ''look'',
                                                defensive_action = ''whoami''\<rparr>\<rparr>)
                initial = (Inr t, s')
         \<and> \<not> success t)
   \<and> (\<exists>t s'. execute_red_team_turn demo_env initial = (Inr t, s') \<and> success t)"
proof -
  let ?E = "demo_env\<lparr>red_decide := \<lambda>s. \<lparr>d_reasoning = ''wait'', d_command = ''sleep 60'',
                                           d_phase = None\<rparr>\<rparr>"
  let ?B = "demo_env\<lparr>blue_decide := \<lambda>s. \<lparr>threat_assessment = ''low'', df_reasoning = ''wait'',
                                            defensive_action = ''sleep 60''\<rparr>\<rparr>"
  let ?W = "demo_env\<lparr>red_decide := \<lambda>s. \<lparr>d_reasoning = ''look'', d_command = ''whoami'',
                                           d_phase = None\<rparr>\<rparr>"
  let ?V = "demo_env\<lparr>blue_decide := \<lambda>s. \<lparr>threat_assessment = ''low'', df_reasoning = ''look'',
                                            defensive_action = ''whoami''\<rparr>\<rparr>"
  have none: "defensive_action (blue_decide demo_env initial) = ''none''"
    by (simp add: demo_env_def)
  have no_calls: "exec_calls initial = []"
    by (simp add: initial_def)
  have raised: "execute_in_container_try ?E initial ''red-kali'' ''sleep 60''
       = (Inl (Timeout ''timed out''),
          initial\<lparr>exec_calls := [(''red-kali'', [''bash'', ''-c'', ''sleep 60''])]\<rparr>)"
    by (simp add: demo_simps)
  have some: "defensive_action (blue_decide ?B initial) \<noteq> ''none''"
    by simp
  have raised_blue: "execute_in_container_try ?B initial ''blue-target'' ''sleep 60''
       = (Inl (Timeout ''timed out''),
          initial\<lparr>exec_calls := [(''blue-target'', [''bash'', ''-c'', ''sleep 60''])]\<rparr>)"
    by (simp add: demo_simps)
  have blue: "\<exists>t s'. execute_blue_team_turn demo_env initial = (Inr t, s')
         \<and> success t \<and> exec_calls s' = []"
  proof -
    obtain t s' where t: "execute_blue_team_turn demo_env initial = (Inr t, s')"
      and n: "defensive_action (blue_decide demo_env initial) = ''none''
                \<longrightarrow> success t \<and> exec_calls s' = exec_calls initial"
      using conjunct2[OF turn_success_flag[of demo_env initial]]
      by (elim exE conjE) (rule that)
    have "success t \<and> exec_calls s' = []"
      using n none no_calls by simp
    with t show ?thesis by blast
  qed
  have red: "\<exists>t s'. execute_red_team_turn ?E initial = (Inr t, s') \<and> \<not> success t"
  proof -
    obtain t s' where t: "execute_red_team_turn ?E initial = (Inr t, s')"
      and f: "\<forall>e s1. execute_in_container_try ?E initial ''red-kali''
                  (d_command (red_decide ?E initial)) = (Inl e, s1)
                \<longrightarrow> \<not> success t"
      using conjunct1[OF turn_success_flag[of ?E initial]]
      by (elim exE conjE) (rule that)
    have "execute_in_container_try ?E initial ''red-kali''
        (d_command (red_decide ?E initial))
       = (Inl (Timeout ''timed out''),
          initial\<lparr>exec_calls := [(''red-kali'', [''bash'', ''-c'', ''sleep 60''])]\<rparr>)"
      using raised by simp
    then have "\<not> success t"
      by (rule f[rule_format])
    with t show ?thesis by blast
  qed
  have blue_fault: "\<exists>t s'. execute_blue_team_turn ?B initial = (Inr t, s') \<and> \<not> success t"
  proof -
    obtain t s' where t: "execute_blue_team_turn ?B initial = (Inr t, s')"
      and f: "\<forall>e s1. defensive_action (blue_decide ?B initial) \<noteq> ''none''
                \<longrightarrow> execute_in_container_try ?B initial ''blue-target''
                      (defensive_action (blue_decide ?B initial)) = (Inl e, s1)
                \<longrightarrow> \<not> success t"
      using conjunct2[OF turn_success_flag[of ?B initial]]
      by (elim exE conjE) (rule that)
    have "execute_in_container_try ?B initial ''blue-target''
        (defensive_action (blue_decide ?B initial))
       = (Inl (Timeout ''timed out''),
          initial\<lparr>exec_calls := [(''blue-target'', [''bash'', ''-c'', ''sleep 60''])]\<rparr>)"
      using raised_blue by simp
    with some have "\<not> success t"
      by (rule f[rule_format])
    with t show ?thesis by blast
  qed
  have exit127: "exec_run demo_env initial ''red-kali'' [''bash'', ''-c'', ''whoami''] 30 =
       Inr (127, None, Some ''bash: command not found'')"
    by (simp add: demo_env_def)
  have returned: "execute_in_container_try ?W initial ''red-kali'' ''whoami''
       = (Inr \<lparr>exit_code = 127, stdout = '''', stderr = ''bash: command not found''\<rparr>,
          initial\<lparr>exec_calls := [(''red-kali'', [''bash'', ''-c'', ''whoami''])]\<rparr>)"
    by (simp add: demo_simps)
  have red_exit: "\<exists>t s'. execute_red_team_turn ?W initial = (Inr t, s') \<and> \<not> success t"
  proof -
    obtain t s' where t: "execute_red_team_turn ?W initial = (Inr t, s')"
      and ret: "\<forall>r0 s1. execute_in_container_try ?W initial ''red-kali''
                  (d_command (red_decide ?W initial)) = (Inr r0, s1)
                \<longrightarrow> success t = (exit_code r0 = 0)"
      using conjunct1[OF turn_success_flag[of ?W initial]]
      by (elim exE conjE) (rule that)
    have "execute_in_container_try ?W initial ''red-kali''
        (d_command (red_decide ?W initial))
       = (Inr \<lparr>exit_code = 127, stdout = '''', stderr = ''bash: command not found''\<rparr>,
          initial\<lparr>exec_calls := [(''red-kali'', [''bash'', ''-c'', ''whoami''])]\<rparr>)"
      using returned by simp
    then have "success t = (exit_code \<lparr>exit_code = 127, stdout = '''',
        stderr = ''bash: command not found''\<rparr> = 0)"
      by (rule ret[rule_format])
    then have "\<not> success t" by simp
    with t show ?thesis by blast
  qed
  have blue_exit: "\<exists>t s'. execute_blue_team_turn ?V initial = (Inr t, s') \<and> \<not> success t"
  proof -
    have act: "defensive_action (blue_decide ?V initial) \<noteq> ''none''"
      by simp
    have get: "containers_get ?V initial ''blue-target'' = Inr ''blue-target''"
      by (simp add: demo_env_def)
    have run: "exec_run ?V initial ''blue-target''
        [''bash'', ''-c'', defensive_action (blue_decide ?V initial)] 30 =
        Inr (127, None, Some ''bash: command not found'')"
      by (simp add: demo_env_def)
    have d0: "decode_stream ?V None = Inr ''''"
      and d1: "decode_stream ?V (Some ''bash: command not found'') =
        Inr ''bash: command not found''"
      by (simp_all add: decode_stream_def demo_env_def)
    obtain t s' where t: "execute_blue_team_turn ?V initial = (Inr t, s')"
      and prog: "\<forall>obj code o0 o1 out err.
            defensive_action (blue_decide ?V initial) \<noteq> ''none''
            \<longrightarrow> containers_get ?V initial ''blue-target'' = Inr obj
            \<longrightarrow> exec_run ?V initial obj
                  [''bash'', ''-c'', defensive_action (blue_decide ?V initial)] 30
                  = Inr (code, o0, o1)
            \<longrightarrow> decode_stream ?V o0 = Inr out
            \<longrightarrow> decode_stream ?V o1 = Inr err
            \<longrightarrow> success t = (code = 0)"
      using conjunct2[OF turn_success_flag[of ?V initial]]
      by (elim exE conjE) (rule that)
    have "success t = ((127::int) = 0)"
      using act get run d0 d1 by (rule prog[rule_format])
    then have "\<not> success t" by simp
    with t show ?thesis by blast
  qed
  have red_ok: "\<exists>t s'. execute_red_team_turn demo_env initial = (Inr t, s') \<and> success t"
  proof -
    have get: "containers_get demo_env initial ''red-kali'' = Inr ''red-kali''"
      by (simp add: demo_env_def)
    have run: "exec_run demo_env initial ''red-kali''
        [''bash'', ''-c'', d_command (red_decide demo_env initial)] 30
        = Inr (0, Some ''22/tcp open ssh'', None)"
      by (simp add: demo_env_def)
    have d0: "decode_stream demo_env (Some ''22/tcp open ssh'') = Inr ''22/tcp open ssh''"
      and d1: "decode_stream demo_env None = Inr ''''"
      by (simp_all add: decode_stream_def demo_env_def)
    obtain t s' where t: "execute_red_team_turn demo_env initial = (Inr t, s')"
      and prog: "\<forall>obj code o0 o1 out err.
            containers_get demo_env initial ''red-kali'' = Inr obj
            \<longrightarrow> exec_run demo_env initial obj
                  [''bash'', ''-c'', d_command (red_decide demo_env initial)] 30
                  = Inr (code, o0, o1)
            \<longrightarrow> decode_stream demo_env o0 = Inr out
            \<longrightarrow> decode_stream demo_env o1 = Inr err
            \<longrightarrow> success t = (code = 0)"
      using conjunct1[OF turn_success_flag[of demo_env initial]]
      by (elim exE conjE) (rule that)
    have "success t = ((0::int) = 0)"
      using get run d0 d1 by (rule prog[rule_format])
    then have "success t" by simp
    with t show ?thesis by blast
  qed
  show ?thesis
    using none blue raised red some blue_fault exit127 returned red_exit blue_exit red_ok
    by (intro conjI)
qed

subsection \<open>Denylisted commands\<close>

lemma execute_in_container_exec_calls:
  "exec_calls (snd (execute_in_container E s container command)) =
     (case containers_get E s container of
        Inl e \<Rightarrow> exec_calls s
      | Inr obj \<Rightarrow> exec_calls s @ [(obj, [''bash'', ''-c'', command])])"
  by (simp add: execute_in_container_def execute_in_container_try_def Let_def
      split: sum.splits prod.splits)

text \<open>
  C5 does not hold of the code: a command on the denylist is not rejected before
  dispatch. \<^verbatim>\<open>validate_command\<close> is defined and called nowhere; neither the executor
  nor the turns consult it. For every command, on the denylist or not, the executor
  hands the command to \<^verbatim>\<open>exec_run\<close> of the container whenever the container is found.
  \<^verbatim>\<open>rm -rf /\<close>, for which \<^verbatim>\<open>validate_command\<close> returns False, handed to
  \<^verbatim>\<open>execute_in_container\<close> or decided by the red agent, reaches \<^verbatim>\<open>exec_run\<close>: where
  the workload runs it, the result is the workload's own exit code 0 and the turn is
  recorded as a success; where \<^verbatim>\<open>exec_run\<close> raises on every call, the result is the
  executor's exit code -1 with the exception's text, the same as for the scan
  \<^verbatim>\<open>nmap blue-target\<close>. In no case is a rejection result built.
\<close>

theorem denylisted_command_dispatched:
  "validate_command ''rm -rf /'' = False
   \<and> exec_calls (snd (execute_in_container E s container command)) =
       (case containers_get E s container of
          Inl e \<Rightarrow> exec_calls s
        | Inr obj \<Rightarrow> exec_calls s @ [(obj, [''bash'', ''-c'', command])])
   \<and> execute_in_container demo_env initial ''red-kali'' ''rm -rf /'' =
       (Inr \<lparr>exit_code = 0, stdout = '''', stderr = ''''\<rparr>,
        initial\<lparr>exec_calls := [(''red-kali'', [''bash'', ''-c'', ''rm -rf /''])]\<rparr>)
   \<and> (\<exists>t s'. execute_red_team_turn
                (demo_env\<lparr>red_decide := \<lambda>s. \<lparr>d_reasoning = ''wipe'', d_command = ''rm -rf /'',
                                               d_phase = None\<rparr>\<rparr>)
                initial = (Inr t, s')
         \<and> success t
         \<and> exec_calls s' = [(''red-kali'', [''bash'', ''-c'', ''rm -rf /''])])
   \<and> execute_in_container
        (demo_env\<lparr>exec_run := \<lambda>s obj cmd t.
           Inl (OtherException ''exec_run() got an unexpected keyword argument'')\<rparr>)
        initial ''red-kali'' ''rm -rf /'' =
       (Inr \<lparr>exit_code = - 1, stdout = '''',
             stderr = ''exec_run() got an unexpected keyword argument''\<rparr>,
        initial\<lparr>exec_calls := [(''red-kali'', [''bash'', ''-c'', ''rm -rf /''])]\<rparr>)
   \<and> fst (execute_in_container
        (demo_env\<lparr>exec_run := \<lambda>s obj cmd t.
           Inl (OtherException ''exec_run() got an unexpected keyword argument'')\<rparr>)
        initial ''red-kali'' ''nmap blue-target'') =
       Inr \<lparr>exit_code = - 1, stdout = '''',
            stderr = ''exec_run() got an unexpected keyword argument''\<rparr>"
proof -
  have "validate_command ''rm -rf /'' = False"
    by (simp add: validate_command_def BLOCKED_COMMANDS_def)
  moreover have "exec_calls (snd (execute_in_container E s container command)) =
       (case containers_get E s container of
          Inl e \<Rightarrow> exec_calls s
        | Inr obj \<Rightarrow> exec_calls s @ [(obj, [''bash'', ''-c'', command])])"
    by (rule execute_in_container_exec_calls)
  moreover have "execute_in_container demo_env initial ''red-kali'' ''rm -rf /'' =
       (Inr \<lparr>exit_code = 0, stdout = '''', stderr = ''''\<rparr>,
        initial\<lparr>exec_calls := [(''red-kali'', [''bash'', ''-c'', ''rm -rf /''])]\<rparr>)"
    by (simp add: demo_simps)
  moreover have "\<exists>t s'. execute_red_team_turn
                (demo_env\<lparr>red_decide := \<lambda>s. \<lparr>d_reasoning = ''wipe'', d_command = ''rm -rf /'',
                                               d_phase = None\<rparr>\<rparr>)
                initial = (Inr t, s')
         \<and> success t
         \<and> exec_calls s' = [(''red-kali'', [''bash'', ''-c'', ''rm -rf /''])]"
    by (simp add: demo_simps)
  moreover have "execute_in_container
        (demo_env\<lparr>exec_run := \<lambda>s obj cmd t.
           Inl (OtherException ''exec_run() got an unexpected keyword argument'')\<rparr>)
        initial ''red-kali'' ''rm -rf /'' =
       (Inr \<lparr>exit_code = - 1, stdout = '''',
             stderr = ''exec_run() got an unexpected keyword argument''\<rparr>,
        initial\<lparr>exec_calls := [(''red-kali'', [''bash'', ''-c'', ''rm -rf /''])]\<rparr>)"
    by (simp add: demo_simps)
  moreover have "fst (execute_in_container
        (demo_env\<lparr>exec_run := \<lambda>s obj cmd t.
           Inl (OtherException ''exec_run() got an unexpected keyword argument'')\<rparr>)
        initial ''red-kali'' ''nmap blue-target'') =
       Inr \<lparr>exit_code = - 1, stdout = '''',
            stderr = ''exec_run() got an unexpected keyword argument''\<rparr>"
    by (simp add: demo_simps)
  ultimately show ?thesis
    by (intro conjI)
qed

subsection \<open>Each kind is awarded at most once in a round\<close>

lemma kind_count_append [simp]: "kind_count k (xs @ ys) = kind_count k xs + kind_count k ys"
  by (simp add: kind_count_def)

lemma kind_count_award:
  "kind_count k (if c then [mk_event rid tm pts ty] else []) = (if c \<and> ty = k then 1 else 0)"
  by (simp add: kind_count_def mk_event_def)

lemma kind_count_round_events_sum:
  "kind_count k (round_events E rid red blue) =
     (if detect_port_scan E red \<and> ''port_scan_complete'' = k then 1 else 0)
     + (if detect_service_identification E red \<and> ''service_identified'' = k then 1 else 0)
     + (if detect_shell_access E red \<and> ''shell_access_gained'' = k then 1 else 0)
     + (if detect_attack_blocked E blue \<and> ''attack_blocked'' = k then 1 else 0)
     + (if detect_ip_blocked E blue \<and> ''attacker_ip_banned'' = k then 1 else 0)
     + (if detect_service_down E blue \<and> ''service_down'' = k then 1 else 0)"
  unfolding round_events_def kind_count_append kind_count_award
  by (simp only: add.assoc)

lemma kind_count_round_events:
  "kind_count k (round_events E rid red blue) = (if detected E k red blue then 1 else 0)"
proof -
  consider "k = ''port_scan_complete''" | "k = ''service_identified''"
    | "k = ''shell_access_gained''" | "k = ''attack_blocked''" | "k = ''attacker_ip_banned''"
    | "k = ''service_down''"
    | "k \<noteq> ''port_scan_complete'' \<and> k \<noteq> ''service_identified''
       \<and> k \<noteq> ''shell_access_gained'' \<and> k \<noteq> ''attack_blocked''
       \<and> k \<noteq> ''attacker_ip_banned'' \<and> k \<noteq> ''service_down''"
    by blast
  then show ?thesis
    by cases (auto simp add: kind_count_round_events_sum detected_def)
qed

lemma kind_count_0_iff: "kind_count k evs = 0 \<longleftrightarrow> k \<notin> event_type ` set evs"
  by (auto simp add: kind_count_def filter_empty_conv)

lemma kind_count_distinct:
  "(\<And>k. kind_count k evs \<le> 1) \<Longrightarrow> distinct (map event_type evs)"
proof (induction evs)
  case Nil
  then show ?case by simp
next
  case (Cons e es)
  have le: "kind_count k es \<le> 1" for k
    using Cons.prems[of k] by (simp add: kind_count_def split: if_splits)
  have "kind_count (event_type e) es = 0"
    using Cons.prems[of "event_type e"] by (simp add: kind_count_def)
  then have "event_type e \<notin> event_type ` set es"
    by (simp add: kind_count_0_iff)
  then show ?case
    using Cons.IH le by simp
qed

lemma distinct_round_events:
  "distinct (map event_type (round_events E rid red blue))"
  by (rule kind_count_distinct) (simp add: kind_count_round_events)

lemma side_points_award:
  "side_points tm (if c then [mk_event rid tm' pts ty] else []) =
     (if c \<and> tm' = tm then pts else 0)"
  by simp

lemma side_points_round_events_red:
  "side_points ''red'' (round_events E rid red blue) =
     (if detect_port_scan E red then 10 else 0)
     + (if detect_service_identification E red then 15 else 0)
     + (if detect_shell_access E red then 100 else 0)"
  unfolding round_events_def side_points_append side_points_award
  by simp

lemma side_points_round_events_blue:
  "side_points ''blue'' (round_events E rid red blue) =
     (if detect_attack_blocked E blue then 50 else 0)
     + (if detect_ip_blocked E blue then 75 else 0)
     + (if detect_service_down E blue then - 50 else 0)"
  unfolding round_events_def side_points_append side_points_award
  by simp

text \<open>
  C3. Whatever the detectors report (each reports a kind or not, however many cues in
  the turn's text imply it), one call of \<^verbatim>\<open>evaluate_round\<close>, which the loop makes once
  per round, appends events of pairwise different kinds: exactly one event of every
  detected kind and none of any other, and the two scores move by the point values of
  the detected kinds, each counted once. A second call, for a later round, awards a kind
  again when it is detected again.
\<close>

theorem evaluate_round_awards_kind_once:
  "(\<exists>new. events (evaluate_round E rid red blue s) = events s @ new
      \<and> distinct (map event_type new)
      \<and> (\<forall>k. kind_count k new = (if detected E k red blue then 1 else 0)))
   \<and> red_score (evaluate_round E rid red blue s) =
       red_score s
       + (if detect_port_scan E red then 10 else 0)
       + (if detect_service_identification E red then 15 else 0)
       + (if detect_shell_access E red then 100 else 0)
   \<and> blue_score (evaluate_round E rid red blue s) =
       blue_score s
       + (if detect_attack_blocked E blue then 50 else 0)
       + (if detect_ip_blocked E blue then 75 else 0)
       + (if detect_service_down E blue then - 50 else 0)
   \<and> (\<forall>k. kind_count k
              (events (evaluate_round E rid' red' blue' (evaluate_round E rid red blue s))) =
            kind_count k (events s)
            + (if detected E k red blue then 1 else 0)
            + (if detected E k red' blue' then 1 else 0))"
proof (intro conjI)
  show "\<exists>new. events (evaluate_round E rid red blue s) = events s @ new
      \<and> distinct (map event_type new)
      \<and> (\<forall>k. kind_count k new = (if detected E k red blue then 1 else 0))"
  proof (intro exI conjI allI)
    show "events (evaluate_round E rid red blue s) = events s @ round_events E rid red blue"
      by (simp add: evaluate_round_eq)
    show "distinct (map event_type (round_events E rid red blue))"
      by (rule distinct_round_events)
    show "kind_count k (round_events E rid red blue) = (if detected E k red blue then 1 else 0)"
      for k
      by (rule kind_count_round_events)
  qed
next
  show "red_score (evaluate_round E rid red blue s) =
       red_score s
       + (if detect_port_scan E red then 10 else 0)
       + (if detect_service_identification E red then 15 else 0)
       + (if detect_shell_access E red then 100 else 0)"
    by (simp only: evaluate_round_eq side_points_round_events_red) simp
next
  show "blue_score (evaluate_round E rid red blue s) =
       blue_score s
       + (if detect_attack_blocked E blue then 50 else 0)
       + (if detect_ip_blocked E blue then 75 else 0)
       + (if detect_service_down E blue then - 50 else 0)"
    by (simp only: evaluate_round_eq side_points_round_events_blue) simp
next
  show "\<forall>k. kind_count k
              (events (evaluate_round E rid' red' blue' (evaluate_round E rid red blue s))) =
            kind_count k (events s)
            + (if detected E k red blue then 1 else 0)
            + (if detected E k red' blue' then 1 else 0)"
    by (simp add: evaluate_round_eq kind_count_round_events)
qed

subsection \<open>The loop as a number of rounds\<close>

lemma run_round_returns: "\<exists>s'. run_round E s = Inr s'"
  using run_round_effect[of E s] by blast

lemma play_rounds_inv:
  assumes step: "\<And>s s'. P s \<Longrightarrow> run_round E s = Inr s' \<Longrightarrow> P s'"
  shows "P s \<Longrightarrow> \<exists>s'. play_rounds E n s = Inr s' \<and> P s'"
proof (induction n arbitrary: s)
  case 0
  then show ?case by simp
next
  case (Suc n)
  obtain s1 where r: "run_round E s = Inr s1"
    using run_round_returns by blast
  with Suc.prems have "P s1" by (rule step)
  then obtain s' where "play_rounds E n s1 = Inr s'" and "P s'"
    using Suc.IH by blast
  with r show ?case by simp
qed

lemma play_rounds_round_number:
  "play_rounds E n s = Inr s' \<Longrightarrow> round_number s' = round_number s + int n"
proof (induction n arbitrary: s)
  case 0
  then show ?case by simp
next
  case (Suc n)
  obtain s1 where r: "run_round E s = Inr s1"
    using run_round_returns by blast
  then have "round_number s1 = round_number s + 1"
    by (rule run_round_round_number)
  moreover have "play_rounds E n s1 = Inr s'"
    using Suc.prems r by simp
  then have "round_number s' = round_number s1 + int n"
    by (rule Suc.IH)
  ultimately show ?case by simp
qed

lemma run_game_loop_while_play_rounds:
  "\<exists>n. run_game_loop_while E max_rounds s = play_rounds E n s
       \<and> int n \<le> max 0 (max_rounds - round_number s)"
proof (induction E max_rounds s rule: run_game_loop_while.induct)
  case (1 E max_rounds s)
  show ?case
  proof (cases "round_number s < max_rounds")
    case False
    then have "run_game_loop_while E max_rounds s = play_rounds E 0 s"
      by simp
    then show ?thesis
      by (intro exI[of _ 0]) simp
  next
    case True
    obtain s1 where r: "run_round E s = Inr s1"
      using run_round_returns by blast
    then have rn: "round_number s1 = round_number s + 1"
      by (rule run_round_round_number)
    show ?thesis
    proof (cases "check_game_over E s1")
      case over: True
      have "run_game_loop_while E max_rounds s = play_rounds E (Suc 0) s"
        using True r over by simp
      moreover have "int (Suc 0) \<le> max 0 (max_rounds - round_number s)"
        using True by simp
      ultimately show ?thesis by blast
    next
      case go: False
      obtain n where n: "run_game_loop_while E max_rounds s1 = play_rounds E n s1"
        and le: "int n \<le> max 0 (max_rounds - round_number s1)"
        using "1.IH"[OF True r go] by blast
      have "run_game_loop_while E max_rounds s = play_rounds E (Suc n) s"
        using True r go n by simp
      moreover have "int (Suc n) \<le> max 0 (max_rounds - round_number s)"
        using le rn True by simp
      ultimately show ?thesis by blast
    qed
  qed
qed

subsection \<open>Round numbers are contiguous\<close>

lemma round_numbers_step:
  assumes "map round_num (rounds s) = [1..round_number s] \<and> 0 \<le> round_number s"
    and "run_round E s = Inr s'"
  shows "map round_num (rounds s') = [1..round_number s'] \<and> 0 \<le> round_number s'"
proof -
  obtain red blue where rn: "round_number s' = round_number s + 1"
    and rs: "rounds s' = rounds s @ [new_round_row s red blue]"
    using run_round_effect[of E s] assms(2) by auto
  have "[1..round_number s + 1] = [1..round_number s] @ [round_number s + 1]"
    using assms(1) upto_rec2[of 1 "round_number s + 1"] by simp
  then show ?thesis
    using assms(1) rn rs by (simp add: new_round_row_def)
qed

text \<open>
  C7. From an orchestrator whose counter is 0 (as \<^verbatim>\<open>__init__\<close> sets it) and a game
  with no round stored, \<^verbatim>\<open>run_game_loop\<close> returns, having run the loop's body some
  \<open>n\<close> times, where \<open>n\<close> is at most \<^verbatim>\<open>max_rounds\<close> (and 0 when \<^verbatim>\<open>max_rounds\<close> is
  not positive); each run of the body adds one to the counter; the final counter is
  \<open>n\<close>, and the round numbers of the stored rounds are \<open>1, 2, ..., n\<close> in this order,
  with no gap and no repeat.
\<close>

theorem round_numbers_contiguous:
  assumes "round_number s = 0" and "rounds s = []"
  shows "\<exists>n s'. run_game_loop E max_rounds s = Inr s'
           \<and> run_game_loop_while E max_rounds s = play_rounds E n s
           \<and> int n \<le> max 0 max_rounds
           \<and> round_number s' = int n
           \<and> map round_num (rounds s') = [1..int n]
           \<and> distinct (map round_num (rounds s'))
           \<and> (\<exists>t1. run_round E t = Inr t1 \<and> round_number t1 = round_number t + 1)"
proof -
  obtain n where loop: "run_game_loop_while E max_rounds s = play_rounds E n s"
    and le: "int n \<le> max 0 (max_rounds - round_number s)"
    using run_game_loop_while_play_rounds by blast
  have "map round_num (rounds s) = [1..round_number s] \<and> 0 \<le> round_number s"
    using assms by simp
  then obtain s1 where s1: "play_rounds E n s = Inr s1"
    and inv: "map round_num (rounds s1) = [1..round_number s1] \<and> 0 \<le> round_number s1"
    using play_rounds_inv[where P = "\<lambda>s. map round_num (rounds s) = [1..round_number s]
        \<and> 0 \<le> round_number s" and E = E and s = s and n = n]
      round_numbers_step[of _ E]
    by blast
  have rn: "round_number s1 = int n"
    using play_rounds_round_number[OF s1] assms(1) by simp
  have run: "run_game_loop E max_rounds s = Inr (end_game s1)"
    using loop s1 by (simp add: run_game_loop_def)
  have "map round_num (rounds (end_game s1)) = [1..int n]"
    using inv rn by (simp add: end_game_def)
  moreover have "round_number (end_game s1) = int n"
    using rn by (simp add: end_game_def)
  moreover have "distinct (map round_num (rounds (end_game s1)))"
    using inv by (simp add: end_game_def)
  moreover have "\<exists>t1. run_round E t = Inr t1 \<and> round_number t1 = round_number t + 1"
    using run_round_effect[of E t] by blast
  moreover have "int n \<le> max 0 max_rounds"
    using le assms(1) by simp
  ultimately show ?thesis
    using run loop by blast
qed

theorem round_numbers_contiguous_witness:
  "round_number initial = 0 \<and> rounds initial = []
   \<and> (\<exists>s'. run_game_loop demo_env 2 initial = Inr s'
         \<and> round_number s' = 2
         \<and> map round_num (rounds s') = [1, 2])"
proof -
  have a: "round_number initial = 0" and b: "rounds initial = []"
    by (simp_all add: initial_def)
  obtain n s' where run: "run_game_loop demo_env 2 initial = Inr s'"
    and n: "round_number s' = int n"
    and ns: "map round_num (rounds s') = [1..int n]"
    using round_numbers_contiguous[OF a b, of demo_env 2] by blast
  have "\<exists>s'. run_game_loop demo_env 2 initial = Inr s' \<and> round_number s' = 2"
    by (simp add: run_game_loop_def run_round_def demo_simps evaluate_round_eq end_game_def)
  then have "round_number s' = 2"
    using run by auto
  then have "int n = 2"
    using n by simp
  then have "map round_num (rounds s') = [1, 2]"
    using ns by (simp add: upto.simps)
  with a b run \<open>round_number s' = 2\<close> show ?thesis
    by (intro conjI exI[of _ s'])
qed

subsection \<open>Scores are the sums of the events' points\<close>

lemma scores_step:
  assumes "red_score s = side_points ''red'' (events s)
      \<and> blue_score s = side_points ''blue'' (events s)"
    and "run_round E s = Inr s'"
  shows "red_score s' = side_points ''red'' (events s')
      \<and> blue_score s' = side_points ''blue'' (events s')"
  using run_round_effect[of E s] assms by auto

text \<open>
  C2. \<^verbatim>\<open>award_points\<close> adds the points to the team's score and records an event
  with the same points for the same team, in one call. So in a game that starts with
  both scores 0 and no event, after any number \<open>n\<close> of rounds, and when
  \<^verbatim>\<open>run_game_loop\<close> has returned, the score of each side is the sum of the points of
  the events recorded for that side.
\<close>

theorem scores_equal_event_sums:
  "(\<exists>s'. play_rounds E n initial = Inr s'
      \<and> red_score s' = side_points ''red'' (events s')
      \<and> blue_score s' = side_points ''blue'' (events s'))
   \<and> (\<exists>s'. run_game_loop E max_rounds initial = Inr s'
      \<and> red_score s' = side_points ''red'' (events s')
      \<and> blue_score s' = side_points ''blue'' (events s'))
   \<and> red_score (award_points ''red'' pts ty rid s) = red_score s + pts
   \<and> side_points ''red'' (events (award_points ''red'' pts ty rid s)) =
       side_points ''red'' (events s) + pts
   \<and> blue_score (award_points ''blue'' pts ty rid s) = blue_score s + pts
   \<and> side_points ''blue'' (events (award_points ''blue'' pts ty rid s)) =
       side_points ''blue'' (events s) + pts"
proof -
  let ?P = "\<lambda>s. red_score s = side_points ''red'' (events s)
      \<and> blue_score s = side_points ''blue'' (events s)"
  have init: "?P initial"
    by (simp add: initial_def)
  have rounds: "\<exists>s'. play_rounds E k initial = Inr s' \<and> ?P s'" for k
    using play_rounds_inv[where P = ?P and E = E and s = initial and n = k]
      scores_step[of _ E] init
    by blast
  obtain k where loop: "run_game_loop_while E max_rounds initial = play_rounds E k initial"
    using run_game_loop_while_play_rounds by blast
  obtain s1 where s1: "play_rounds E k initial = Inr s1" and p1: "?P s1"
    using rounds by blast
  have "run_game_loop E max_rounds initial = Inr (end_game s1)"
    using loop s1 by (simp add: run_game_loop_def)
  moreover have "?P (end_game s1)"
    using p1 by (simp add: end_game_def)
  ultimately have final: "\<exists>s'. run_game_loop E max_rounds initial = Inr s' \<and> ?P s'"
    by blast
  have "red_score (award_points ''red'' pts ty rid s) = red_score s + pts"
    and "side_points ''red'' (events (award_points ''red'' pts ty rid s)) =
       side_points ''red'' (events s) + pts"
    by (simp_all add: award_points_red)
  moreover have "blue_score (award_points ''blue'' pts ty rid s) = blue_score s + pts"
    and "side_points ''blue'' (events (award_points ''blue'' pts ty rid s)) =
       side_points ''blue'' (events s) + pts"
    by (simp_all add: award_points_blue)
  ultimately show ?thesis
    using rounds[of n] final by blast
qed

subsection \<open>The round record and the round's points\<close>



subsection \<open>The phase of a round\<close>

lemma ordered_ranges_Cons:
  "ordered_ranges ((lo, hi, p) # rest) \<Longrightarrow> lo \<le> hi \<and> ordered_ranges rest"
proof (cases rest)
  case Nil
  then show "ordered_ranges ((lo, hi, p) # rest) \<Longrightarrow> ?thesis" by simp
next
  case (Cons r rest')
  obtain a b q where "r = (a, b, q)" by (cases r)
  with Cons show "ordered_ranges ((lo, hi, p) # rest) \<Longrightarrow> ?thesis" by simp
qed

lemma ordered_ranges_later:
  "ordered_ranges ((lo, hi, p) # rest) \<Longrightarrow> (lo', hi', p') \<in> set rest \<Longrightarrow> hi < lo'"
proof (induction rest arbitrary: lo hi p)
  case Nil
  then show ?case by simp
next
  case (Cons r rest)
  obtain a b q where r: "r = (a, b, q)" by (cases r)
  have head: "hi < a" and tail: "ordered_ranges ((a, b, q) # rest)"
    using Cons.prems(1) r by simp_all
  show ?case
  proof (cases "(lo', hi', p') = r")
    case True
    then show ?thesis using head r by simp
  next
    case False
    then have "(lo', hi', p') \<in> set rest" using Cons.prems(2) by simp
    with tail have "b < lo'" by (rule Cons.IH)
    moreover have "a \<le> b" using ordered_ranges_Cons[OF tail] by simp
    ultimately show ?thesis using head by simp
  qed
qed

lemma phase_lookup_in_range:
  "ordered_ranges tbl \<Longrightarrow> (lo, hi, p) \<in> set tbl \<Longrightarrow> lo \<le> n \<Longrightarrow> n \<le> hi
   \<Longrightarrow> phase_lookup tbl final n = p"
proof (induction tbl)
  case Nil
  then show ?case by simp
next
  case (Cons r rest)
  obtain a b q where r: "r = (a, b, q)" by (cases r)
  show ?case
  proof (cases "(lo, hi, p) = r")
    case True
    then show ?thesis using Cons.prems r by simp
  next
    case False
    then have mem: "(lo, hi, p) \<in> set rest" using Cons.prems by simp
    then have "b < lo" using Cons.prems(1) r ordered_ranges_later by blast
    then have "\<not> (a \<le> n \<and> n \<le> b)" using Cons.prems(3) by simp
    moreover have "phase_lookup rest final n = p"
      using Cons.IH ordered_ranges_Cons[of a b q rest] Cons.prems(1) r mem Cons.prems(3,4)
      by blast
    ultimately show ?thesis using r by auto
  qed
qed

lemma phase_lookup_beyond:
  "(\<And>lo hi p. (lo, hi, p) \<in> set tbl \<Longrightarrow> hi < n) \<Longrightarrow> phase_lookup tbl final n = final"
proof (induction tbl)
  case Nil
  then show ?case by simp
next
  case (Cons r rest)
  obtain a b q where r: "r = (a, b, q)" by (cases r)
  have "b < n" using Cons.prems[of a b q] r by simp
  moreover have "phase_lookup rest final n = final"
  proof (rule Cons.IH)
    show "hi < n" if "(lo, hi, p) \<in> set rest" for lo hi p
      using Cons.prems[of lo hi p] that by simp
  qed
  ultimately show ?case using r by simp
qed

lemma ordered_phase_table: "ordered_ranges phase_table"
  by (simp add: phase_table_def)

text \<open>
  C8. \<open>phase_for\<close> is a function of the round number alone, defined on every integer.
  The configured ranges are ordered and do not overlap, and for a round number within a
  configured range \<open>phase_for\<close> returns that range's phase: reconnaissance for rounds
  1 to 5, initial access for 6 to 15, privilege escalation for 16 to 25, mission
  completion for 26 to 30. For every round number beyond 30, which exceeds all
  configured ranges, it returns the final configured phase, mission completion.
  \<^verbatim>\<open>get_current_phase\<close> reads nothing of the state but the counter, so two calls at
  the same round give the same phase.
\<close>

theorem phase_for_matches_table:
  "(\<forall>lo hi p. (lo, hi, p) \<in> set phase_table \<longrightarrow> lo \<le> n \<longrightarrow> n \<le> hi \<longrightarrow> phase_for n = p)
   \<and> (1 \<le> n \<and> n \<le> 5 \<longrightarrow> phase_for n = Reconnaissance)
   \<and> (6 \<le> n \<and> n \<le> 15 \<longrightarrow> phase_for n = InitialAccess)
   \<and> (16 \<le> n \<and> n \<le> 25 \<longrightarrow> phase_for n = PrivilegeEscalation)
   \<and> (26 \<le> n \<and> n \<le> 30 \<longrightarrow> phase_for n = MissionCompletion)
   \<and> (30 < n \<longrightarrow> phase_for n = snd (snd (last phase_table))
                \<and> phase_for n = MissionCompletion)
   \<and> (round_number s = round_number s' \<longrightarrow> get_current_phase s = get_current_phase s')"
proof -
  have in_range: "phase_for n = p" if "(lo, hi, p) \<in> set phase_table" "lo \<le> n" "n \<le> hi"
    for lo hi p
    unfolding phase_for_def
    using ordered_phase_table that by (rule phase_lookup_in_range)
  have beyond: "phase_for n = snd (snd (last phase_table))" if "30 < n"
    unfolding phase_for_def
  proof (rule phase_lookup_beyond)
    fix lo hi p
    assume "(lo, hi, p) \<in> set phase_table"
    then have "hi \<le> 30" by (auto simp add: phase_table_def)
    then show "hi < n" using that by simp
  qed
  have final: "snd (snd (last phase_table)) = MissionCompletion"
    by (simp add: phase_table_def)
  have gen: "\<forall>lo hi p. (lo, hi, p) \<in> set phase_table \<longrightarrow> lo \<le> n \<longrightarrow> n \<le> hi
      \<longrightarrow> phase_for n = p"
    using in_range by blast
  have c1: "1 \<le> n \<and> n \<le> 5 \<longrightarrow> phase_for n = Reconnaissance"
    using in_range[of 1 5 Reconnaissance] by (simp add: phase_table_def)
  have c2: "6 \<le> n \<and> n \<le> 15 \<longrightarrow> phase_for n = InitialAccess"
    using in_range[of 6 15 InitialAccess] by (simp add: phase_table_def)
  have c3: "16 \<le> n \<and> n \<le> 25 \<longrightarrow> phase_for n = PrivilegeEscalation"
    using in_range[of 16 25 PrivilegeEscalation] by (simp add: phase_table_def)
  have c4: "26 \<le> n \<and> n \<le> 30 \<longrightarrow> phase_for n = MissionCompletion"
    using in_range[of 26 30 MissionCompletion] by (simp add: phase_table_def)
  have c5: "30 < n \<longrightarrow> phase_for n = snd (snd (last phase_table))
                \<and> phase_for n = MissionCompletion"
    using beyond final by simp
  have c6: "round_number s = round_number s' \<longrightarrow>
      get_current_phase s = get_current_phase s'"
    by (simp add: get_current_phase_def)
  show ?thesis
    by (intro conjI) (fact gen c1 c2 c3 c4 c5 c6)+
qed

theorem phase_for_matches_table_witness:
  "(1, 5, Reconnaissance) \<in> set phase_table
   \<and> phase_for 1 = Reconnaissance \<and> phase_for 5 = Reconnaissance
   \<and> phase_for 6 = InitialAccess \<and> phase_for 15 = InitialAccess
   \<and> phase_for 16 = PrivilegeEscalation \<and> phase_for 25 = PrivilegeEscalation
   \<and> phase_for 26 = MissionCompletion \<and> phase_for 30 = MissionCompletion
   \<and> phase_for 31 = MissionCompletion \<and> phase_for 1000 = MissionCompletion
   \<and> get_current_phase (initial\<lparr>round_number := 7\<rparr>) =
       get_current_phase (initial\<lparr>round_number := 7, red_score := 10\<rparr>)"
proof -
  have mem: "(1, 5, Reconnaissance) \<in> set phase_table"
    by (simp add: phase_table_def)
  have gen: "phase_for n = p" if "(lo, hi, p) \<in> set phase_table" "lo \<le> n" "n \<le> hi"
    for n lo hi p
    using phase_for_matches_table[of n initial initial] that by blast
  have r1: "phase_for n = Reconnaissance" if "1 \<le> n" "n \<le> 5" for n
    using phase_for_matches_table[of n initial initial] that by blast
  have r2: "phase_for n = InitialAccess" if "6 \<le> n" "n \<le> 15" for n
    using phase_for_matches_table[of n initial initial] that by blast
  have r3: "phase_for n = PrivilegeEscalation" if "16 \<le> n" "n \<le> 25" for n
    using phase_for_matches_table[of n initial initial] that by blast
  have r4: "phase_for n = MissionCompletion" if "26 \<le> n" "n \<le> 30" for n
    using phase_for_matches_table[of n initial initial] that by blast
  have r5: "phase_for n = MissionCompletion" if "30 < n" for n
    using phase_for_matches_table[of n initial initial] that by blast
  have r6: "get_current_phase s = get_current_phase s'" if "round_number s = round_number s'"
    for s s'
    using phase_for_matches_table[of 0 s s'] that by blast
  have "phase_for 1 = Reconnaissance"
    using gen[OF mem] by simp
  moreover have "phase_for 5 = Reconnaissance" by (rule r1) simp_all
  moreover have "phase_for 6 = InitialAccess" by (rule r2) simp_all
  moreover have "phase_for 15 = InitialAccess" by (rule r2) simp_all
  moreover have "phase_for 16 = PrivilegeEscalation" by (rule r3) simp_all
  moreover have "phase_for 25 = PrivilegeEscalation" by (rule r3) simp_all
  moreover have "phase_for 26 = MissionCompletion" by (rule r4) simp_all
  moreover have "phase_for 30 = MissionCompletion" by (rule r4) simp_all
  moreover have "phase_for 31 = MissionCompletion" by (rule r5) simp
  moreover have "phase_for 1000 = MissionCompletion" by (rule r5) simp
  moreover have "get_current_phase (initial\<lparr>round_number := 7\<rparr>) =
       get_current_phase (initial\<lparr>round_number := 7, red_score := 10\<rparr>)"
    by (rule r6) simp
  ultimately show ?thesis
    using mem by (intro conjI)
qed

end
